theory Spec2Isabelle
  imports Complex_Main "HOL-Library.Word"
begin

unbundle bit_operations_syntax

section \<open>Error codes and results (helpers/error.hpp)\<close>

text \<open>
  \<^verbatim>\<open>enum class ErrorCode : uint8_t\<close>.  A \<^verbatim>\<open>result_t<T>\<close> (\<^verbatim>\<open>tl::expected<T, ErrorCode>\<close>)
  is the sum \<open>ErrorCode + T\<close>: \<open>Inl\<close> carries the error, \<open>Inr\<close> the value.
\<close>

datatype ErrorCode =
    SUCCESS
  | SPI_TRANSFER_FAILED
  | REGISTER_ACCESS_FAILED
  | INVALID_PARAMETER
  | TIMEOUT
  | CHIP_BUSY
  | NOT_IMPLEMENTED
  | UNKNOWN_ERROR

type_synonym 'a result_t = "ErrorCode + 'a"

type_synonym u8 = "8 word"
type_synonym u32 = "32 word"

definition has_value :: "'a result_t \<Rightarrow> bool" where
  "has_value r = (case r of Inl _ \<Rightarrow> False | Inr _ \<Rightarrow> True)"

section \<open>Registers and fields (base/register_base.hpp, base/concepts.hpp)\<close>

datatype Access = RO | WO | RW

text \<open>
  A register type \<^verbatim>\<open>RegisterAddress<Addr, Acc, UnitType>\<close>: its address, its access mode and
  whether its \<^verbatim>\<open>type_t\<close> is the marker \<^verbatim>\<open>core::Volatile\<close> (the concept \<^verbatim>\<open>VolatileRegister\<close>).
\<close>

record RegisterAddress =
  address :: u8
  access :: Access
  volatile :: bool

text \<open>
  A field type \<^verbatim>\<open>Field<RegAddr, StartBit, Length>\<close>.  The template evaluates
  \<^verbatim>\<open>static_assert(StartBit + Length <= 32)\<close>; \<open>field_fits\<close> is that assertion.
\<close>

record Field =
  register_t :: RegisterAddress
  start_bit :: u8
  bit_length :: u8

definition field_fits :: "Field \<Rightarrow> bool" where
  "field_fits f = (unat (start_bit f) + unat (bit_length f) \<le> 32)"

text \<open>
  \<^verbatim>\<open>mask{((uint32_t{1U} << Length) - 1U << StartBit)}\<close> and \<^verbatim>\<open>shift{StartBit}\<close>.  (With
  \<^verbatim>\<open>Length\<close> = 32 the constant expression shifts a 32-bit value by 32 and does not compile;
  the word arithmetic of the model yields the all-ones mask there.)
\<close>

definition mask_of :: "Field \<Rightarrow> u32" where
  "mask_of f = push_bit (unat (start_bit f)) (push_bit (unat (bit_length f)) 1 - 1)"

definition shift_of :: "Field \<Rightarrow> nat" where
  "shift_of f = unat (start_bit f)"

text \<open>The concepts \<^verbatim>\<open>WritableRegister\<close>, \<^verbatim>\<open>ReadableRegister\<close>, \<^verbatim>\<open>WritableField\<close>, \<^verbatim>\<open>ReadableField\<close>.\<close>

definition WritableRegister :: "RegisterAddress \<Rightarrow> bool" where
  "WritableRegister r = (access r \<noteq> RO)"

definition ReadableRegister :: "RegisterAddress \<Rightarrow> bool" where
  "ReadableRegister r = (access r \<noteq> WO)"

definition WritableField :: "Field \<Rightarrow> bool" where
  "WritableField f = WritableRegister (register_t f)"

definition ReadableField :: "Field \<Rightarrow> bool" where
  "ReadableField f = ReadableRegister (register_t f)"

section \<open>The transport (concept SpiDevice) and the driver state\<close>

text \<open>
  The driver talks to the transport through \<^verbatim>\<open>select()\<close>, \<^verbatim>\<open>transfer(tx, rx, timeout)\<close> and
  \<^verbatim>\<open>deselect()\<close>.  The calls made on the transport are recorded, in order, in a log; a
  \<open>Transfer\<close> event keeps the transmitted frame and the boolean the transport returned.

  The transport itself is a parameter: a deterministic device is a function from the history
  of calls made so far and the transmitted frame to the returned flag and the bytes it puts
  into the receive buffer.
\<close>

datatype event = Select | Transfer "u8 list" bool | Deselect

type_synonym spi_device = "event list \<Rightarrow> u8 list \<Rightarrow> bool \<times> u8 list"

text \<open>
  \<^verbatim>\<open>CoreCommunicator\<close>: the reference to the transport (here the log of calls made on it) and
  \<^verbatim>\<open>std::array<uint32_t, tmc_register_count> m_register_cache{}\<close>.
\<close>

record driver =
  spi_log :: "event list"
  m_register_cache :: "u32 list"

definition tmc_register_count :: nat where
  "tmc_register_count = 128"

definition rx_tx_buffer_size :: nat where
  "rx_tx_buffer_size = 5"

definition new_driver :: driver where
  "new_driver = \<lparr>spi_log = [], m_register_cache = replicate tmc_register_count 0\<rparr>"

definition cache_ok :: "driver \<Rightarrow> bool" where
  "cache_ok s = (length (m_register_cache s) = tmc_register_count)"

text \<open>The device writes at most \<open>rx_tx_buffer_size\<close> bytes into the receive buffer it is handed.\<close>

definition store_rx :: "u8 list \<Rightarrow> u8 list \<Rightarrow> u8 list" where
  "store_rx rx resp = take rx_tx_buffer_size resp @ drop (length (take rx_tx_buffer_size resp)) rx"

text \<open>
  \<^verbatim>\<open>transfer\<close>: the guard's constructor selects, the transport transfers, and the guard's
  destructor deselects on every path out of the function.
\<close>

definition transfer ::
  "spi_device \<Rightarrow> u8 list \<Rightarrow> u8 list \<Rightarrow> driver \<Rightarrow> (unit result_t \<times> u8 list) \<times> driver" where
  "transfer dev tx_buffer rx_buffer s =
     (let s1 = s\<lparr>spi_log := spi_log s @ [Select]\<rparr>;
          (ok, resp) = dev (spi_log s1) tx_buffer;
          s2 = s1\<lparr>spi_log := spi_log s1 @ [Transfer tx_buffer ok]\<rparr>;
          rx = store_rx rx_buffer resp;
          s3 = s2\<lparr>spi_log := spi_log s2 @ [Deselect]\<rparr>
      in if \<not> ok then ((Inl SPI_TRANSFER_FAILED, rx), s3) else ((Inr (), rx), s3))"

text \<open>
  \<^verbatim>\<open>write_raw\<close>: byte 0 is \<^verbatim>\<open>addr | 0x80\<close>; the loop stores
  \<^verbatim>\<open>(val >> (8 * (3 - idx))) & 0xFF\<close> at position \<^verbatim>\<open>1 + idx\<close> for \<open>idx = 0..3\<close>.
\<close>

definition write_frame :: "u8 \<Rightarrow> u32 \<Rightarrow> u8 list" where
  "write_frame addr val =
     (addr OR 0x80) # map (\<lambda>idx. ucast (drop_bit (8 * (3 - idx)) val AND 0xFF)) [0..<4]"

definition write_raw :: "spi_device \<Rightarrow> u8 \<Rightarrow> u32 \<Rightarrow> driver \<Rightarrow> unit result_t \<times> driver" where
  "write_raw dev addr val s =
     (let tx_buffer = write_frame addr val;
          rx_buffer = replicate rx_tx_buffer_size 0;
          ((res, rx), s1) = transfer dev tx_buffer rx_buffer s
      in (res, s1))"

text \<open>
  \<^verbatim>\<open>read_raw\<close>: two transfers; the value is assembled from bytes 1..4 of the second reply,
  most significant byte first.
\<close>

definition read_raw :: "spi_device \<Rightarrow> u8 \<Rightarrow> driver \<Rightarrow> u32 result_t \<times> driver" where
  "read_raw dev addr s =
     (let tx_buffer = (addr AND 0x7F) # replicate 4 0;
          rx_buffer = replicate rx_tx_buffer_size 0;
          ((res1, rx1), s1) = transfer dev tx_buffer rx_buffer s
      in case res1 of
           Inl e \<Rightarrow> (Inl e, s1)
         | Inr _ \<Rightarrow>
             (let tx_buffer2 = tx_buffer[0 := 0];
                  ((res2, rx2), s2) = transfer dev tx_buffer2 rx1 s1
              in case res2 of
                   Inl e \<Rightarrow> (Inl e, s2)
                 | Inr _ \<Rightarrow>
                     (Inr (fold (\<lambda>idx result.
                                   result OR push_bit (8 * (3 - idx)) (ucast (rx2 ! (1 + idx))))
                             [0..<4] 0), s2)))"

section \<open>The protocol and cache engine (features/core_communicator.hpp)\<close>

text \<open>
  \<^verbatim>\<open>write<RegType>\<close> (constrained by \<^verbatim>\<open>WritableRegister\<close>): the cache slot is assigned first,
  then the frame is sent.  The cache is a fixed array of 128 slots and every register of the
  schema has an address below 128.  A register type with a larger address would index
  outside the array, which C++ leaves undefined; the model leaves the cache unchanged there,
  and the facts below that speak about a slot assume the address is below 128.
\<close>

definition "write" :: "spi_device \<Rightarrow> RegisterAddress \<Rightarrow> u32 \<Rightarrow> driver \<Rightarrow> unit result_t \<times> driver" where
  "write dev r val s =
     (let s1 = s\<lparr>m_register_cache := (m_register_cache s)[unat (address r) := val]\<rparr>
      in write_raw dev (address r) val s1)"

definition write_field :: "spi_device \<Rightarrow> Field \<Rightarrow> u32 \<Rightarrow> driver \<Rightarrow> unit result_t \<times> driver" where
  "write_field dev f field_val s =
     (let current = m_register_cache s ! unat (address (register_t f));
          current1 = current AND NOT (mask_of f);
          current2 = current1 OR (push_bit (shift_of f) field_val AND mask_of f)
      in write dev (register_t f) current2 s)"

definition read :: "spi_device \<Rightarrow> RegisterAddress \<Rightarrow> driver \<Rightarrow> u32 result_t \<times> driver" where
  "read dev r s =
     (let is_ro = (access r = RO)
      in if volatile r \<or> is_ro then read_raw dev (address r) s
         else (Inr (m_register_cache s ! unat (address r)), s))"

definition read_field :: "spi_device \<Rightarrow> Field \<Rightarrow> driver \<Rightarrow> u32 result_t \<times> driver" where
  "read_field dev f s =
     (let (reg_val, s1) = read dev (register_t f) s
      in case reg_val of
           Inl e \<Rightarrow> (Inl e, s1)
         | Inr v \<Rightarrow> (Inr (drop_bit (shift_of f) (v AND mask_of f)), s1))"

definition get_shadow :: "driver \<Rightarrow> u8 \<Rightarrow> u32 result_t" where
  "get_shadow s addr =
     (if unat addr \<ge> length (m_register_cache s) then Inl REGISTER_ACCESS_FAILED
      else Inr (m_register_cache s ! unat addr))"

section \<open>The register schema (chips/tmc5160_registers.hpp)\<close>

text \<open>
  The register types of the schema, with the addresses of \<^verbatim>\<open>enum class RegAddress\<close>.
  \<^verbatim>\<open>XACTUAL\<close> and \<^verbatim>\<open>VACTUAL\<close> carry the marker \<^verbatim>\<open>core::Volatile\<close>.
\<close>

definition GCONF :: RegisterAddress where
  "GCONF = \<lparr>address = 0x00, access = RW, volatile = False\<rparr>"

definition IHOLD_IRUN :: RegisterAddress where
  "IHOLD_IRUN = \<lparr>address = 0x10, access = RW, volatile = False\<rparr>"

definition CHOPCONF :: RegisterAddress where
  "CHOPCONF = \<lparr>address = 0x6C, access = RW, volatile = False\<rparr>"

definition SW_MODE :: RegisterAddress where
  "SW_MODE = \<lparr>address = 0x34, access = RW, volatile = False\<rparr>"

definition RAMPMODE :: RegisterAddress where
  "RAMPMODE = \<lparr>address = 0x20, access = RW, volatile = False\<rparr>"

definition XACTUAL :: RegisterAddress where
  "XACTUAL = \<lparr>address = 0x21, access = RW, volatile = True\<rparr>"

definition VMAX :: RegisterAddress where
  "VMAX = \<lparr>address = 0x27, access = RW, volatile = False\<rparr>"

definition AMAX :: RegisterAddress where
  "AMAX = \<lparr>address = 0x26, access = RW, volatile = False\<rparr>"

definition GLOBAL_SCALER :: RegisterAddress where
  "GLOBAL_SCALER = \<lparr>address = 0x0B, access = WO, volatile = False\<rparr>"

definition XTARGET :: RegisterAddress where
  "XTARGET = \<lparr>address = 0x2D, access = WO, volatile = False\<rparr>"

definition VSTART :: RegisterAddress where
  "VSTART = \<lparr>address = 0x23, access = WO, volatile = False\<rparr>"

definition A1 :: RegisterAddress where
  "A1 = \<lparr>address = 0x24, access = WO, volatile = False\<rparr>"

definition V1 :: RegisterAddress where
  "V1 = \<lparr>address = 0x25, access = WO, volatile = False\<rparr>"

definition DMAX :: RegisterAddress where
  "DMAX = \<lparr>address = 0x28, access = WO, volatile = False\<rparr>"

definition D1 :: RegisterAddress where
  "D1 = \<lparr>address = 0x2A, access = WO, volatile = False\<rparr>"

definition VSTOP :: RegisterAddress where
  "VSTOP = \<lparr>address = 0x2B, access = WO, volatile = False\<rparr>"

definition TZEROWAIT :: RegisterAddress where
  "TZEROWAIT = \<lparr>address = 0x2C, access = WO, volatile = False\<rparr>"

definition TWPOWER_DOWN :: RegisterAddress where
  "TWPOWER_DOWN = \<lparr>address = 0x11, access = WO, volatile = False\<rparr>"

definition PWMCONF :: RegisterAddress where
  "PWMCONF = \<lparr>address = 0x70, access = WO, volatile = False\<rparr>"

definition GSTAT :: RegisterAddress where
  "GSTAT = \<lparr>address = 0x01, access = RO, volatile = False\<rparr>"

definition VACTUAL :: RegisterAddress where
  "VACTUAL = \<lparr>address = 0x22, access = RO, volatile = True\<rparr>"

definition DRV_STATUS :: RegisterAddress where
  "DRV_STATUS = \<lparr>address = 0x6F, access = RO, volatile = False\<rparr>"

text \<open>\<^verbatim>\<open>inline constexpr RegisterTuple<GCONF, IHOLD_IRUN, ...> register_tuple\<close>, in its order.\<close>

definition register_tuple :: "RegisterAddress list" where
  "register_tuple =
     [GCONF, IHOLD_IRUN, CHOPCONF, SW_MODE, RAMPMODE, XACTUAL, VMAX, AMAX, GLOBAL_SCALER, XTARGET,
      VSTART, A1, V1, DMAX, D1, VSTOP, TZEROWAIT, TWPOWER_DOWN, PWMCONF, GSTAT, VACTUAL, DRV_STATUS]"

text \<open>
  The field types the schema declares (\<^verbatim>\<open>using ..._t = core::Field<Reg, StartBit, Length>\<close>;
  the length defaults to 1), register by register.
\<close>

definition recalibrate_t :: Field where
  "recalibrate_t = \<lparr>register_t = GCONF, start_bit = 0, bit_length = 1\<rparr>"

definition fast_standstill_t :: Field where
  "fast_standstill_t = \<lparr>register_t = GCONF, start_bit = 1, bit_length = 1\<rparr>"

definition en_pwm_mode_t :: Field where
  "en_pwm_mode_t = \<lparr>register_t = GCONF, start_bit = 2, bit_length = 1\<rparr>"

definition multistep_filt_t :: Field where
  "multistep_filt_t = \<lparr>register_t = GCONF, start_bit = 3, bit_length = 1\<rparr>"

definition shaft_t :: Field where
  "shaft_t = \<lparr>register_t = GCONF, start_bit = 4, bit_length = 1\<rparr>"

definition diag0_error_t :: Field where
  "diag0_error_t = \<lparr>register_t = GCONF, start_bit = 5, bit_length = 1\<rparr>"

definition diag0_otpw_t :: Field where
  "diag0_otpw_t = \<lparr>register_t = GCONF, start_bit = 6, bit_length = 1\<rparr>"

definition i_hold_t :: Field where
  "i_hold_t = \<lparr>register_t = IHOLD_IRUN, start_bit = 0, bit_length = 5\<rparr>"

definition i_run_t :: Field where
  "i_run_t = \<lparr>register_t = IHOLD_IRUN, start_bit = 8, bit_length = 5\<rparr>"

definition i_hold_delay_t :: Field where
  "i_hold_delay_t = \<lparr>register_t = IHOLD_IRUN, start_bit = 16, bit_length = 4\<rparr>"

definition toff_t :: Field where
  "toff_t = \<lparr>register_t = CHOPCONF, start_bit = 0, bit_length = 4\<rparr>"

definition hstrt_t :: Field where
  "hstrt_t = \<lparr>register_t = CHOPCONF, start_bit = 4, bit_length = 3\<rparr>"

definition hend_t :: Field where
  "hend_t = \<lparr>register_t = CHOPCONF, start_bit = 7, bit_length = 4\<rparr>"

definition tbl_t :: Field where
  "tbl_t = \<lparr>register_t = CHOPCONF, start_bit = 15, bit_length = 2\<rparr>"

definition chm_t :: Field where
  "chm_t = \<lparr>register_t = CHOPCONF, start_bit = 14, bit_length = 1\<rparr>"

definition mres_t :: Field where
  "mres_t = \<lparr>register_t = CHOPCONF, start_bit = 24, bit_length = 4\<rparr>"

definition intpol_t :: Field where
  "intpol_t = \<lparr>register_t = CHOPCONF, start_bit = 28, bit_length = 1\<rparr>"

definition double_edge_t :: Field where
  "double_edge_t = \<lparr>register_t = CHOPCONF, start_bit = 29, bit_length = 1\<rparr>"

definition stop_l_enable_t :: Field where
  "stop_l_enable_t = \<lparr>register_t = SW_MODE, start_bit = 0, bit_length = 1\<rparr>"

definition stop_r_enable_t :: Field where
  "stop_r_enable_t = \<lparr>register_t = SW_MODE, start_bit = 1, bit_length = 1\<rparr>"

definition sg_stop_t :: Field where
  "sg_stop_t = \<lparr>register_t = SW_MODE, start_bit = 10, bit_length = 1\<rparr>"

definition en_softstop_t :: Field where
  "en_softstop_t = \<lparr>register_t = SW_MODE, start_bit = 11, bit_length = 1\<rparr>"

definition mode_t :: Field where
  "mode_t = \<lparr>register_t = RAMPMODE, start_bit = 0, bit_length = 2\<rparr>"

definition schema_fields :: "Field list" where
  "schema_fields =
     [recalibrate_t, fast_standstill_t, en_pwm_mode_t, multistep_filt_t, shaft_t,
      diag0_error_t, diag0_otpw_t, i_hold_t, i_run_t, i_hold_delay_t, toff_t,
      hstrt_t, hend_t, tbl_t, chm_t, mres_t, intpol_t, double_edge_t,
      stop_l_enable_t, stop_r_enable_t, sg_stop_t, en_softstop_t, mode_t]"

section \<open>Transports used to run the driver on concrete inputs\<close>

text \<open>
  \<open>ok_device\<close> accepts every transfer and leaves the receive buffer alone;
  \<open>failing_device\<close> reports failure on every transfer;
  \<open>fail_nth n\<close> reports failure on the transfer number \<open>n\<close> (counted from 0) and
  success on all others.
\<close>

fun transfers :: "event list \<Rightarrow> bool list" where
  "transfers [] = []"
| "transfers (Transfer tx ok # es) = ok # transfers es"
| "transfers (e # es) = transfers es"

definition ok_device :: spi_device where
  "ok_device hist tx = (True, [])"

definition failing_device :: spi_device where
  "failing_device hist tx = (False, [])"

definition fail_nth :: "nat \<Rightarrow> spi_device" where
  "fail_nth n hist tx = (length (transfers hist) \<noteq> n, [])"

section \<open>Reading the log of transport calls\<close>

text \<open>
  \<open>calls_during s s'\<close> is what an operation that took the driver from \<open>s\<close> to \<open>s'\<close> appended
  to the log, and \<open>log_extended s s'\<close> says that it only appended.  \<open>bracketed\<close> accepts the
  logs in which every transfer stands between its own select and deselect, and
  \<open>is_selected\<close> replays the log on the chip-select line (deselected at the start).
\<close>

definition calls_during :: "driver \<Rightarrow> driver \<Rightarrow> event list" where
  "calls_during s s' = drop (length (spi_log s)) (spi_log s')"

definition log_extended :: "driver \<Rightarrow> driver \<Rightarrow> bool" where
  "log_extended s s' = (take (length (spi_log s)) (spi_log s') = spi_log s)"

fun bracketed :: "event list \<Rightarrow> bool" where
  "bracketed [] = True"
| "bracketed (Select # Transfer tx ok # Deselect # es) = bracketed es"
| "bracketed es = False"

definition select_line :: "bool \<Rightarrow> event \<Rightarrow> bool" where
  "select_line selected e =
     (case e of Select \<Rightarrow> True | Deselect \<Rightarrow> False | Transfer tx ok \<Rightarrow> selected)"

definition is_selected :: "event list \<Rightarrow> bool" where
  "is_selected es = foldl select_line False es"

text \<open>
  An operation that took the driver from \<open>s\<close> to \<open>s'\<close> released the bus: it only appended
  to the log, what it appended is a sequence of select / transfer / deselect triples, and the
  chip-select line is not active afterwards unless it already was before.
\<close>

definition bus_released :: "driver \<Rightarrow> driver \<Rightarrow> bool" where
  "bus_released s s' =
     (log_extended s s' \<and> bracketed (calls_during s s')
      \<and> (is_selected (spi_log s') \<longrightarrow> is_selected (spi_log s)))"

section \<open>Runtime register access (detail/tmc5160_register_access.hpp)\<close>

text \<open>
  \<^verbatim>\<open>RegisterTuple::find_index<SearchAddr>\<close>: the fold assigns \<^verbatim>\<open>result = idx\<close> at every
  element whose address matches, so the last match wins; without a match the result is the
  size of the tuple.  \<^verbatim>\<open>get<Addr>\<close> returns the element at that index (a \<^verbatim>\<open>static_assert\<close>
  rejects an address that is not in the tuple).
\<close>

definition find_index :: "u8 \<Rightarrow> nat" where
  "find_index search_addr =
     snd (fold (\<lambda>r (idx, result). (idx + 1, if address r = search_addr then idx else result))
            register_tuple (0, length register_tuple))"

definition tuple_get :: "u8 \<Rightarrow> RegisterAddress" where
  "tuple_get addr = register_tuple ! find_index addr"

text \<open>
  \<^verbatim>\<open>get_register<Addr>\<close> and \<^verbatim>\<open>set_register<Addr>\<close>, which the thunks of the tables call.
\<close>

definition get_register :: "spi_device \<Rightarrow> u8 \<Rightarrow> driver \<Rightarrow> u32 result_t \<times> driver" where
  "get_register dev addr s = read dev (tuple_get addr) s"

definition set_register :: "spi_device \<Rightarrow> u8 \<Rightarrow> u32 \<Rightarrow> driver \<Rightarrow> unit result_t \<times> driver" where
  "set_register dev addr val s = write dev (tuple_get addr) val s"

text \<open>
  The two tables: 128 entries, value-initialised to \<^verbatim>\<open>nullptr\<close> (\<open>None\<close>).  An entry
  \<open>Some a\<close> is the pointer to the thunk instantiated at address \<open>a\<close>.
  \<^verbatim>\<open>create_lookup_table\<close> stores a thunk for every register of the tuple;
  \<^verbatim>\<open>create_set_lookup_table\<close> stores one for every register that is not read-only and
  \<^verbatim>\<open>nullptr\<close> for the read-only ones.
\<close>

definition create_lookup_table :: "u8 option list" where
  "create_lookup_table =
     fold (\<lambda>r table. table[unat (address r) := Some (address r)])
       register_tuple (replicate tmc_register_count None)"

definition create_set_lookup_table :: "u8 option list" where
  "create_set_lookup_table =
     fold (\<lambda>r table. if RO \<noteq> access r then table[unat (address r) := Some (address r)]
                      else table[unat (address r) := None])
       register_tuple (replicate tmc_register_count None)"

definition register_lookup_table :: "u8 option list" where
  "register_lookup_table = create_lookup_table"

definition register_set_lookup_table :: "u8 option list" where
  "register_set_lookup_table = create_set_lookup_table"

text \<open>
  \<^verbatim>\<open>get_register_value\<close> and \<^verbatim>\<open>set_register_value\<close>; \<^verbatim>\<open>regs_t\<close> is an enumeration over
  \<^verbatim>\<open>uint8_t\<close>, so any byte can arrive.
\<close>

definition get_register_value :: "spi_device \<Rightarrow> u8 \<Rightarrow> driver \<Rightarrow> u32 result_t \<times> driver" where
  "get_register_value dev reg_address s =
     (let index = reg_address
      in if unat index \<ge> length register_lookup_table then (Inl INVALID_PARAMETER, s)
         else case register_lookup_table ! unat index of
                None \<Rightarrow> (Inl INVALID_PARAMETER, s)
              | Some thunk \<Rightarrow> get_register dev thunk s)"

definition set_register_value :: "spi_device \<Rightarrow> u8 \<Rightarrow> u32 \<Rightarrow> driver \<Rightarrow> unit result_t \<times> driver" where
  "set_register_value dev reg_address val s =
     (let index = reg_address
      in if unat index \<ge> length register_set_lookup_table then (Inl INVALID_PARAMETER, s)
         else case register_set_lookup_table ! unat index of
                None \<Rightarrow> (Inl REGISTER_ACCESS_FAILED, s)
              | Some thunk \<Rightarrow> set_register dev thunk val s)"

section \<open>Unit conversion (features/converter.hpp)\<close>

text \<open>
  The converter computes in \<^verbatim>\<open>float\<close> (and, in \<^verbatim>\<open>rpm_to_vmax\<close>, \<^verbatim>\<open>double\<close>).  A finite
  floating-point value is modelled by the real number it denotes, and every floating-point
  operation by the exact operation followed by the rounding of its result type.  The two
  rounding functions are parameters of the model: \<open>f32\<close> rounds to \<^verbatim>\<open>float\<close>, \<open>f64\<close> to
  \<^verbatim>\<open>double\<close>.  Infinities and NaN are outside the model, so the facts below that depend on
  a quotient assume its divisor is not zero.

  \<open>rounding\<close> collects what the facts below need of a rounding function: it is monotone,
  and it leaves the integers up to \<open>2^24\<close> (which both formats represent exactly) unchanged.
  \<open>exact\<close> is arithmetic without rounding error.
\<close>

record fpu =
  f32 :: "real \<Rightarrow> real"
  f64 :: "real \<Rightarrow> real"

definition rounding :: "(real \<Rightarrow> real) \<Rightarrow> bool" where
  "rounding rnd = (mono rnd \<and> (\<forall>n :: int. \<bar>n\<bar> \<le> 2 ^ 24 \<longrightarrow> rnd (of_int n) = of_int n))"

definition exact :: fpu where
  "exact = \<lparr>f32 = (\<lambda>x. x), f64 = (\<lambda>x. x)\<rparr>"

text \<open>
  Conversion of a floating-point value to an integer type discards the fractional part.
  C++ defines it only when the truncated value fits the destination type
  (\<open>fits_int32\<close>, \<open>fits_uint32\<close>); the facts below that depend on a converted value establish
  or assume that it fits.
\<close>

definition trunc_toward_zero :: "real \<Rightarrow> int" where
  "trunc_toward_zero x = (if 0 \<le> x then \<lfloor>x\<rfloor> else \<lceil>x\<rceil>)"

definition fits_int32 :: "real \<Rightarrow> bool" where
  "fits_int32 x = (- (2 ^ 31) \<le> trunc_toward_zero x \<and> trunc_toward_zero x < 2 ^ 31)"

definition fits_uint32 :: "real \<Rightarrow> bool" where
  "fits_uint32 x = (0 \<le> trunc_toward_zero x \<and> trunc_toward_zero x < 2 ^ 32)"

definition to_int32 :: "real \<Rightarrow> int" where
  "to_int32 x = trunc_toward_zero x"

definition to_uint32 :: "real \<Rightarrow> u32" where
  "to_uint32 x = word_of_int (trunc_toward_zero x)"

text \<open>\<^verbatim>\<open>std::clamp(v, lo, hi)\<close>: \<^verbatim>\<open>(v < lo) ? lo : (hi < v) ? hi : v\<close>.\<close>

definition clamp :: "'a::linorder \<Rightarrow> 'a \<Rightarrow> 'a \<Rightarrow> 'a" where
  "clamp v lo hi = (if v < lo then lo else if hi < v then hi else v)"

text \<open>
  The calibration members of \<^verbatim>\<open>Converter\<close>.  The constructor stores the clock frequency and
  the sense resistance as given and converts the full-step count from \<^verbatim>\<open>int32_t\<close> to
  \<^verbatim>\<open>float\<close>.
\<close>

record Converter =
  m_clock_frequency :: real
  m_full_steps :: real
  m_r_sense :: real

definition make_Converter :: "fpu \<Rightarrow> real \<Rightarrow> int \<Rightarrow> real \<Rightarrow> Converter" where
  "make_Converter fp f_clk full_steps r_sense_ohm =
     \<lparr>m_clock_frequency = f_clk, m_full_steps = f32 fp (of_int full_steps), m_r_sense = r_sense_ohm\<rparr>"

definition rpm_to_vmax :: "fpu \<Rightarrow> Converter \<Rightarrow> real \<Rightarrow> u32" where
  "rpm_to_vmax fp c rpm =
     (let v_hz = f64 fp (f64 fp (f32 fp (rpm * m_full_steps c) * 256) / 60);
          multiplier = 2 ^ 24
      in to_uint32 (f64 fp (f64 fp (v_hz * multiplier) / m_clock_frequency c)))"

text \<open>
  \<^verbatim>\<open>current_to_cs\<close>.  \<^verbatim>\<open>0.325f\<close> and \<^verbatim>\<open>std::numbers::sqrt2_v<float>\<close> are the \<^verbatim>\<open>float\<close>
  values nearest to 0.325 and to the square root of 2.
\<close>

definition i_max_rms :: "fpu \<Rightarrow> Converter \<Rightarrow> real" where
  "i_max_rms fp c =
     (let v_fs = f32 fp (325 / 1000);
          sqrt2 = f32 fp (sqrt 2)
      in f32 fp (f32 fp (v_fs / m_r_sense c) / sqrt2))"

definition cs_operand :: "fpu \<Rightarrow> Converter \<Rightarrow> real \<Rightarrow> real" where
  "cs_operand fp c current =
     (let ratio = f32 fp (current / i_max_rms fp c)
      in f32 fp (f32 fp (ratio * 32) - 1))"

definition current_to_cs :: "fpu \<Rightarrow> Converter \<Rightarrow> real \<Rightarrow> u8" where
  "current_to_cs fp c current =
     (let low = 0; high = 31;
          cs_value = clamp (to_int32 (cs_operand fp c current)) low high
      in word_of_int cs_value)"

definition accel_operand :: "fpu \<Rightarrow> Converter \<Rightarrow> real \<Rightarrow> real" where
  "accel_operand fp c accel =
     (let a_hz_s = accel;
          constant_factor = 2 ^ 41;
          numerator = f32 fp (a_hz_s * constant_factor);
          denominator = f32 fp (m_clock_frequency c * m_clock_frequency c)
      in f32 fp (numerator / denominator))"

definition accel_to_register :: "fpu \<Rightarrow> Converter \<Rightarrow> real \<Rightarrow> u32" where
  "accel_to_register fp c accel =
     (let result = accel_operand fp c accel;
          min_val = 1; max_val = 65535;
          result_clamp = clamp result min_val max_val
      in to_uint32 result_clamp)"

definition duration_to_tzerowait :: "fpu \<Rightarrow> Converter \<Rightarrow> real \<Rightarrow> u32" where
  "duration_to_tzerowait fp c duration =
     (let clocks = f32 fp (duration * m_clock_frequency c);
          scaling_factor = 2 ^ 9;
          reg_val = f32 fp (clocks / scaling_factor);
          clamped_value = clamp reg_val 0 65535
      in to_uint32 clamped_value)"

text \<open>
  The formula the specification gives for \<open>current_to_cs\<close>, in exact arithmetic:
  \<open>cs = clamp(round(current / rms_full_scale * 32) - 1, 0, 31)\<close> with
  \<open>rms_full_scale = (0.325 / sense_resistor) / sqrt(2)\<close>.
\<close>

definition rms_full_scale :: "real \<Rightarrow> real" where
  "rms_full_scale sense_resistor = (325 / 1000 / sense_resistor) / sqrt 2"

definition current_to_cs_spec :: "real \<Rightarrow> real \<Rightarrow> int" where
  "current_to_cs_spec sense_resistor current =
     clamp (round (current / rms_full_scale sense_resistor * 32) - 1) 0 31"

text \<open>
  The converter of the default calibration (helpers/constants.hpp): 12 MHz clock, 200 full
  steps, 75 mOhm sense resistor; and the one with a 50 mOhm sense resistor.  Both in exact
  arithmetic.
\<close>

definition default_converter :: Converter where
  "default_converter = make_Converter exact 12000000 200 (75 / 1000)"

definition converter_50mOhm :: Converter where
  "converter_50mOhm = make_Converter exact 12000000 200 (50 / 1000)"

section \<open>The motion sequencer (detail/tmc5160_motion.hpp)\<close>

text \<open>
  \<^verbatim>\<open>result.and_then(f)\<close> of \<^verbatim>\<open>tl::expected<void, ErrorCode>\<close>: \<open>f\<close> runs only if the result holds
  a value; an error is passed on unchanged.  The same combinator models the early returns
  \<^verbatim>\<open>if (const auto res{...}; !res) { return res; }\<close> of \<^verbatim>\<open>apply_settings\<close>.
\<close>

definition and_then ::
  "(driver \<Rightarrow> unit result_t \<times> driver) \<Rightarrow> (driver \<Rightarrow> 'a result_t \<times> driver)
     \<Rightarrow> driver \<Rightarrow> 'a result_t \<times> driver" where
  "and_then m f s = (case m s of (Inl e, s1) \<Rightarrow> (Inl e, s1) | (Inr u, s1) \<Rightarrow> f s1)"

text \<open>\<^verbatim>\<open>enum class RampModeType : uint32_t\<close>.\<close>

datatype RampModeType = POSITIONING | VELOCITY_POS | VELOCITY_NEG | HOLD

fun ramp_mode_value :: "RampModeType \<Rightarrow> u32" where
  "ramp_mode_value POSITIONING = 0"
| "ramp_mode_value VELOCITY_POS = 1"
| "ramp_mode_value VELOCITY_NEG = 2"
| "ramp_mode_value HOLD = 3"

text \<open>
  \<^verbatim>\<open>TMC5160Motion\<close> holds references to the bus and to the converter; the model passes the
  rounding functions, the transport and the converter to every operation.
\<close>

definition stop :: "spi_device \<Rightarrow> driver \<Rightarrow> unit result_t \<times> driver" where
  "stop dev = write dev VMAX 0"

definition set_ramp_mode :: "spi_device \<Rightarrow> RampModeType \<Rightarrow> driver \<Rightarrow> unit result_t \<times> driver" where
  "set_ramp_mode dev mode = write dev RAMPMODE (ramp_mode_value mode)"

definition set_stealth_chop :: "spi_device \<Rightarrow> bool \<Rightarrow> driver \<Rightarrow> unit result_t \<times> driver" where
  "set_stealth_chop dev state =
     (let write_value = (if state then 1 else 0) in write_field dev chm_t write_value)"

definition set_max_velocity ::
  "fpu \<Rightarrow> spi_device \<Rightarrow> Converter \<Rightarrow> real \<Rightarrow> driver \<Rightarrow> unit result_t \<times> driver" where
  "set_max_velocity fp dev c max_velocity =
     (let vmax_reg = rpm_to_vmax fp c max_velocity in write dev VMAX vmax_reg)"

definition set_start_speed ::
  "fpu \<Rightarrow> spi_device \<Rightarrow> Converter \<Rightarrow> real \<Rightarrow> driver \<Rightarrow> unit result_t \<times> driver" where
  "set_start_speed fp dev c start_speed = write dev VSTART (rpm_to_vmax fp c start_speed)"

definition set_ramp_transition_velocity ::
  "fpu \<Rightarrow> spi_device \<Rightarrow> Converter \<Rightarrow> real \<Rightarrow> driver \<Rightarrow> unit result_t \<times> driver" where
  "set_ramp_transition_velocity fp dev c speed = write dev V1 (rpm_to_vmax fp c speed)"

definition set_stop_velocity ::
  "fpu \<Rightarrow> spi_device \<Rightarrow> Converter \<Rightarrow> real \<Rightarrow> driver \<Rightarrow> unit result_t \<times> driver" where
  "set_stop_velocity fp dev c speed =
     (let val = max 1 (rpm_to_vmax fp c speed) in write dev VSTOP val)"

definition rotate_velocity ::
  "fpu \<Rightarrow> spi_device \<Rightarrow> Converter \<Rightarrow> real \<Rightarrow> driver \<Rightarrow> unit result_t \<times> driver" where
  "rotate_velocity fp dev c velocity =
     and_then
       (if 0 \<le> velocity then set_ramp_mode dev VELOCITY_POS else set_ramp_mode dev VELOCITY_NEG)
       (let abs_vel = (if velocity < 0 then - velocity else velocity)
        in set_max_velocity fp dev c abs_vel)"

text \<open>
  \<^verbatim>\<open>microsteps_t\<close> wraps an \<^verbatim>\<open>int32_t\<close>, here the 32-bit word of its two's-complement
  representation (\<open>sint\<close> reads it); \<^verbatim>\<open>static_cast<uint32_t>\<close> keeps the 32 bits.
\<close>

type_synonym i32 = "32 word"
type_synonym i8 = "8 word"

definition move_to ::
  "fpu \<Rightarrow> spi_device \<Rightarrow> Converter \<Rightarrow> i32 \<Rightarrow> real \<Rightarrow> driver \<Rightarrow> unit result_t \<times> driver" where
  "move_to fp dev c step max_speed =
     and_then (and_then (set_ramp_mode dev POSITIONING) (set_start_speed fp dev c max_speed))
       (write dev XTARGET step)"

definition set_linear_acceleration ::
  "fpu \<Rightarrow> spi_device \<Rightarrow> Converter \<Rightarrow> real \<Rightarrow> real \<Rightarrow> driver \<Rightarrow> unit result_t \<times> driver" where
  "set_linear_acceleration fp dev c acceleration decel =
     (let a_val = accel_to_register fp c acceleration;
          d_val = clamp (accel_to_register fp c decel) 1 65535
      in and_then (and_then (and_then (write dev AMAX a_val) (write dev DMAX d_val))
                     (write dev D1 d_val))
           (write dev A1 a_val))"

definition set_advanced_acceleration ::
  "fpu \<Rightarrow> spi_device \<Rightarrow> Converter \<Rightarrow> real \<Rightarrow> real \<Rightarrow> real \<Rightarrow> real
     \<Rightarrow> driver \<Rightarrow> unit result_t \<times> driver" where
  "set_advanced_acceleration fp dev c start_accel max_accel max_decel stop_decel =
     (let clamped_d1_val = clamp (accel_to_register fp c stop_decel) 1 65535
      in and_then (and_then (and_then (write dev A1 (accel_to_register fp c start_accel))
                               (write dev AMAX (accel_to_register fp c max_accel)))
                     (write dev DMAX (accel_to_register fp c max_decel)))
           (write dev D1 clamped_d1_val))"

definition set_actual_motor_position ::
  "spi_device \<Rightarrow> i32 \<Rightarrow> driver \<Rightarrow> unit result_t \<times> driver" where
  "set_actual_motor_position dev val = write dev XACTUAL val"

definition set_irun ::
  "fpu \<Rightarrow> spi_device \<Rightarrow> Converter \<Rightarrow> real \<Rightarrow> driver \<Rightarrow> unit result_t \<times> driver" where
  "set_irun fp dev c current =
     (let irun_val = current_to_cs fp c current in write_field dev i_run_t (ucast irun_val))"

definition set_ihold ::
  "fpu \<Rightarrow> spi_device \<Rightarrow> Converter \<Rightarrow> real \<Rightarrow> driver \<Rightarrow> unit result_t \<times> driver" where
  "set_ihold fp dev c current =
     and_then (write_field dev i_hold_t (ucast (current_to_cs fp c current)))
       (let hold_delay_default_value = 6 in write_field dev i_hold_delay_t hold_delay_default_value)"

definition set_acceleration ::
  "fpu \<Rightarrow> spi_device \<Rightarrow> Converter \<Rightarrow> real \<Rightarrow> driver \<Rightarrow> unit result_t \<times> driver" where
  "set_acceleration fp dev c acceleration = write dev AMAX (accel_to_register fp c acceleration)"

section \<open>The driver (tmc5160.hpp)\<close>

text \<open>
  \<^verbatim>\<open>is_all_ok(args...)\<close> is \<^verbatim>\<open>(... && args.has_value())\<close>.  Its arguments are the results of
  the register writes written in the call: every one of them is evaluated before
  \<^verbatim>\<open>is_all_ok\<close> is entered.  C++ leaves the order in which the arguments are evaluated
  unspecified; \<open>eval_args\<close> runs them from left to right.
\<close>

definition is_all_ok :: "'a result_t list \<Rightarrow> bool" where
  "is_all_ok args = list_all has_value args"

fun eval_args ::
  "(driver \<Rightarrow> 'a result_t \<times> driver) list \<Rightarrow> driver \<Rightarrow> 'a result_t list \<times> driver" where
  "eval_args [] s = ([], s)"
| "eval_args (a # as) s =
     (let (r, s1) = a s; (rs, s2) = eval_args as s1 in (r # rs, s2))"

definition apply_default_configuration :: "spi_device \<Rightarrow> driver \<Rightarrow> unit result_t \<times> driver" where
  "apply_default_configuration dev s =
     (let (args, s1) =
            eval_args
              [write dev VSTOP 100, write dev V1 40000, write dev AMAX 10000,
               write dev DMAX 10000, write dev A1 2000, write dev D1 10000,
               write dev TWPOWER_DOWN 10,
               write_field dev i_hold_delay_t 6, write_field dev i_hold_t 4,
               write_field dev i_run_t 16,
               write_field dev toff_t 3, write_field dev hstrt_t 4, write_field dev hend_t 1,
               write_field dev tbl_t 2,
               write dev XTARGET 0] s
      in if \<not> is_all_ok args then (Inl SPI_TRANSFER_FAILED, s1)
         else write dev RAMPMODE (ramp_mode_value POSITIONING) s1)"

text \<open>
  \<^verbatim>\<open>TMC5160::Settings\<close>.  The calibration values are those the converter was built from.
  \<^verbatim>\<open>hend\<close> is an \<^verbatim>\<open>int8_t\<close>; passing it as \<^verbatim>\<open>uint32_t\<close> sign-extends it.
\<close>

record Settings =
  run_current :: real
  hold_current :: real
  hold_delay :: u8
  power_down_delay :: u8
  v_start :: real
  v_stop :: real
  v_1 :: real
  v_max :: real
  a_1 :: real
  a_max :: real
  d_max :: real
  d_1 :: real
  stealth_chop_enabled :: bool
  toff :: u8
  hstrt :: u8
  hend :: i8
  tbl :: u8

definition apply_settings ::
  "fpu \<Rightarrow> spi_device \<Rightarrow> Converter \<Rightarrow> Settings \<Rightarrow> driver \<Rightarrow> unit result_t \<times> driver" where
  "apply_settings fp dev c m_settings =
     and_then (write dev RAMPMODE (ramp_mode_value POSITIONING))
    (and_then (set_start_speed fp dev c (v_start m_settings))
    (and_then (set_stop_velocity fp dev c (v_stop m_settings))
    (and_then (set_ramp_transition_velocity fp dev c (v_1 m_settings))
    (and_then (set_max_velocity fp dev c (v_max m_settings))
    (and_then (set_advanced_acceleration fp dev c (a_1 m_settings) (a_max m_settings)
                 (d_max m_settings) (d_1 m_settings))
    (\<lambda>s5.
       let run_current_val = current_to_cs fp c (run_current m_settings);
           hold_current_val = current_to_cs fp c (hold_current m_settings);
           (args1, s6) =
             eval_args
               [write_field dev i_run_t (ucast run_current_val),
                write_field dev i_hold_t (ucast hold_current_val),
                write_field dev i_hold_delay_t (ucast (hold_delay m_settings))] s5
       in if \<not> is_all_ok args1 then (Inl SPI_TRANSFER_FAILED, s6)
          else
            and_then (write dev TWPOWER_DOWN (ucast (power_down_delay m_settings)))
              (\<lambda>s7.
                 let (args2, s8) =
                       eval_args
                         [write_field dev toff_t (ucast (toff m_settings)),
                          write_field dev hstrt_t (ucast (hstrt m_settings)),
                          write_field dev hend_t (scast (hend m_settings)),
                          write_field dev tbl_t (ucast (tbl m_settings))] s7
                 in if \<not> is_all_ok args2 then (Inl SPI_TRANSFER_FAILED, s8)
                    else
                      and_then (set_stealth_chop dev (stealth_chop_enabled m_settings))
                        (\<lambda>s9.
                           let (args3, s10) =
                                 eval_args [write dev XTARGET 0, write dev XACTUAL 0] s9
                           in if \<not> is_all_ok args3 then (Inl SPI_TRANSFER_FAILED, s10)
                              else (Inr (), s10))
                        s8)
              s6))))))"

text \<open>
  \<^verbatim>\<open>TMC5160RegisterAccess::get_all_registers\<close>: the fold over the register tuple carries the
  output array, the next index and the flag \<^verbatim>\<open>success\<close>; once the flag is false no further
  register is read.
\<close>

definition get_all_registers_step ::
  "spi_device \<Rightarrow> RegisterAddress \<Rightarrow> (u32 list \<times> nat \<times> bool) \<times> driver \<Rightarrow> (u32 list \<times> nat \<times> bool) \<times> driver" where
  "get_all_registers_step dev r st =
     (case st of ((registers, index, success), s) \<Rightarrow>
        if \<not> success then ((registers, index, False), s)
        else case read dev r s of
               (Inr read_val, s1) \<Rightarrow> ((registers[index := read_val], index + 1, True), s1)
             | (Inl e, s1) \<Rightarrow> ((registers, index, False), s1))"

definition get_all_registers :: "spi_device \<Rightarrow> driver \<Rightarrow> u32 list result_t \<times> driver" where
  "get_all_registers dev s =
     (case fold (get_all_registers_step dev) register_tuple
             ((replicate tmc_register_count 0, 0, True), s) of
        ((registers, index, success), s1) \<Rightarrow>
          if False = success then (Inl SPI_TRANSFER_FAILED, s1) else (Inr registers, s1))"

section \<open>Plans: which transfers a sequence attempts\<close>

text \<open>
  A plan is the list of the sizes of the groups of transfers a sequence makes.
  \<open>runs_plan plan outcomes\<close> holds when \<open>outcomes\<close> (the flags the transport returned, in
  order) are those of running the groups in order, attempting every transfer of a group that
  was started, and stopping after the first group in which a transfer failed.  A plan of
  groups of size 1 is a short-circuiting sequence: the first failed transfer is the last
  one attempted.

  \<open>run_follows plan s out\<close> says that the run that led from \<open>s\<close> to the outcome \<open>out\<close>
  followed the plan and reported it faithfully: the result holds a value exactly when every
  attempted transfer succeeded, and the error is \<open>SPI_TRANSFER_FAILED\<close> otherwise.
\<close>

fun runs_plan :: "nat list \<Rightarrow> bool list \<Rightarrow> bool" where
  "runs_plan [] outcomes = (outcomes = [])"
| "runs_plan (k # ks) outcomes =
     (k \<le> length outcomes \<and>
      (if list_all (\<lambda>ok. ok) (take k outcomes) then runs_plan ks (drop k outcomes)
       else length outcomes = k))"

definition run_follows :: "nat list \<Rightarrow> driver \<Rightarrow> 'a result_t \<times> driver \<Rightarrow> bool" where
  "run_follows plan s out =
     (let outcomes = transfers (calls_during s (snd out))
      in log_extended s (snd out) \<and> runs_plan plan outcomes
         \<and> has_value (fst out) = list_all (\<lambda>ok. ok) outcomes
         \<and> (\<not> has_value (fst out) \<longrightarrow> fst out = Inl SPI_TRANSFER_FAILED))"

text \<open>The frames of the transfers in a log, in order.\<close>

fun frames :: "event list \<Rightarrow> u8 list list" where
  "frames [] = []"
| "frames (Transfer tx ok # es) = tx # frames es"
| "frames (e # es) = frames es"

text \<open>
  The transfers one \<open>read\<close> makes: two for a volatile or read-only register (the second only
  if the first succeeded), none for a register served from the cache.
\<close>

definition read_plan :: "RegisterAddress \<Rightarrow> nat list" where
  "read_plan r = (if volatile r \<or> access r = RO then [1, 1] else [])"

section \<open>Facts about the schema\<close>

lemmas reg_defs =
  GCONF_def IHOLD_IRUN_def CHOPCONF_def SW_MODE_def RAMPMODE_def XACTUAL_def VMAX_def AMAX_def
  GLOBAL_SCALER_def XTARGET_def VSTART_def A1_def V1_def DMAX_def D1_def VSTOP_def TZEROWAIT_def
  TWPOWER_DOWN_def PWMCONF_def GSTAT_def VACTUAL_def DRV_STATUS_def

lemmas field_defs =
  recalibrate_t_def fast_standstill_t_def en_pwm_mode_t_def multistep_filt_t_def shaft_t_def
  diag0_error_t_def diag0_otpw_t_def i_hold_t_def i_run_t_def i_hold_delay_t_def
  toff_t_def hstrt_t_def hend_t_def tbl_t_def chm_t_def
  mres_t_def intpol_t_def double_edge_t_def stop_l_enable_t_def stop_r_enable_t_def
  sg_stop_t_def en_softstop_t_def mode_t_def

section \<open>The engine: one transfer, one frame\<close>

lemma write_frame_bytes:
  "write_frame addr val =
     [addr OR 0x80, ucast (drop_bit 24 val), ucast (drop_bit 16 val), ucast (drop_bit 8 val), ucast val]"
proof -
  have up: "[0..<4] = [0, Suc 0, 2, 3]"
    by (simp add: upt_rec)
  have ff: "(0xFF :: u32) = mask 8"
    by (simp add: mask_eq_exp_minus_1)
  have m: "ucast (w AND 0xFF :: u32) = (ucast w :: u8)" for w
    unfolding ff by (rule bit_word_eqI) (auto simp: bit_simps)
  show ?thesis
    by (simp add: write_frame_def up m)
qed

lemma transfer_log:
  "spi_log (snd (transfer dev tx rx s)) =
     spi_log s @ [Select, Transfer tx (fst (dev (spi_log s @ [Select]) tx)), Deselect]"
  by (simp add: transfer_def Let_def split: prod.splits)

lemma transfer_cache:
  "m_register_cache (snd (transfer dev tx rx s)) = m_register_cache s"
  by (simp add: transfer_def Let_def split: prod.splits)

lemma transfer_result:
  "fst (fst (transfer dev tx rx s)) =
     (if fst (dev (spi_log s @ [Select]) tx) then Inr () else Inl SPI_TRANSFER_FAILED)"
  by (simp add: transfer_def Let_def split: prod.splits)

lemma write_raw_log:
  "spi_log (snd (write_raw dev addr val s)) =
     spi_log s @ [Select, Transfer (write_frame addr val)
                    (fst (dev (spi_log s @ [Select]) (write_frame addr val))), Deselect]"
  by (simp add: write_raw_def Let_def split_beta transfer_log)

lemma write_raw_cache:
  "m_register_cache (snd (write_raw dev addr val s)) = m_register_cache s"
  by (simp add: write_raw_def Let_def split_beta transfer_cache)

lemma write_raw_result:
  "fst (write_raw dev addr val s) =
     (if fst (dev (spi_log s @ [Select]) (write_frame addr val)) then Inr ()
      else Inl SPI_TRANSFER_FAILED)"
  by (simp add: write_raw_def Let_def split_beta transfer_result)

lemma write_log:
  "spi_log (snd (write dev r val s)) =
     spi_log s @ [Select, Transfer (write_frame (address r) val)
                    (fst (dev (spi_log s @ [Select]) (write_frame (address r) val))), Deselect]"
  by (simp add: write_def Let_def write_raw_log)

lemma write_cache:
  "m_register_cache (snd (write dev r val s)) = (m_register_cache s)[unat (address r) := val]"
  by (simp add: write_def Let_def write_raw_cache)

lemma write_result:
  "fst (write dev r val s) =
     (if fst (dev (spi_log s @ [Select]) (write_frame (address r) val)) then Inr ()
      else Inl SPI_TRANSFER_FAILED)"
  by (simp add: write_def Let_def write_raw_result)

lemma write_cache_ok: "cache_ok s \<Longrightarrow> cache_ok (snd (write dev r val s))"
  by (simp add: cache_ok_def write_cache)

lemma new_driver_cache_ok: "cache_ok new_driver"
  by (simp add: cache_ok_def new_driver_def)

lemma read_raw_cache:
  "m_register_cache (snd (read_raw dev addr s)) = m_register_cache s"
  by (simp add: read_raw_def Let_def split_beta transfer_cache split: sum.splits)

lemma read_cache:
  "m_register_cache (snd (read dev r s)) = m_register_cache s"
  by (simp add: read_def read_raw_cache)

lemma read_nonvolatile:
  "\<not> volatile r \<Longrightarrow> access r \<noteq> RO \<Longrightarrow>
     read dev r s = (Inr (m_register_cache s ! unat (address r)), s)"
  by (simp add: read_def)

subsection \<open>C2: the write datagram\<close>

text \<open>
  C2.  For every register address and every 32-bit value, a register write makes exactly one
  bracketed transfer, and the frame it transmits has five bytes: the address with the write
  bit set (\<open>addr OR 0x80\<close>), then the value's four bytes, most significant first.  Writing
  \<open>0x12345678\<close> to address \<open>0x27\<close> transmits \<open>[0xA7, 0x12, 0x34, 0x56, 0x78]\<close>.
\<close>

theorem write_transmits_one_frame:
  "spi_log (snd (write dev r val s)) =
     spi_log s @
       [Select,
        Transfer [address r OR 0x80, ucast (drop_bit 24 val), ucast (drop_bit 16 val),
                  ucast (drop_bit 8 val), ucast val]
                 (fst (dev (spi_log s @ [Select]) (write_frame (address r) val))),
        Deselect]
   \<and> write_frame 0x27 0x12345678 = [0xA7, 0x12, 0x34, 0x56, 0x78]
   \<and> transfers (spi_log (snd (write ok_device VMAX 0x12345678 new_driver))) = [True]
   \<and> spi_log (snd (write ok_device VMAX 0x12345678 new_driver)) =
        [Select, Transfer [0xA7, 0x12, 0x34, 0x56, 0x78] True, Deselect]"
proof -
  have frame: "write_frame (address r) val =
      [address r OR 0x80, ucast (drop_bit 24 val), ucast (drop_bit 16 val),
       ucast (drop_bit 8 val), ucast val]"
    by (rule write_frame_bytes)
  have general: "spi_log (snd (write dev r val s)) =
      spi_log s @
        [Select,
         Transfer [address r OR 0x80, ucast (drop_bit 24 val), ucast (drop_bit 16 val),
                   ucast (drop_bit 8 val), ucast val]
                  (fst (dev (spi_log s @ [Select]) (write_frame (address r) val))),
         Deselect]"
    using write_log [of dev r val s] by (simp only: frame [symmetric])
  have scenario: "write_frame 0x27 0x12345678 = [0xA7, 0x12, 0x34, 0x56, 0x78]"
    by (simp add: write_frame_bytes)
  have run: "spi_log (snd (write ok_device VMAX 0x12345678 new_driver)) =
      [Select, Transfer [0xA7, 0x12, 0x34, 0x56, 0x78] True, Deselect]"
    using scenario by (simp add: write_log VMAX_def new_driver_def ok_device_def)
  then have "transfers (spi_log (snd (write ok_device VMAX 0x12345678 new_driver))) = [True]"
    by simp
  with general scenario run show ?thesis
    by (intro conjI)
qed

subsection \<open>C3: write, then read through the cache\<close>

text \<open>
  C3.  For a writable, non-volatile register (address below 128) and every 32-bit value
  \<open>v\<close>, \<open>write\<close> followed by \<open>read\<close> returns exactly \<open>v\<close>; the read returns the driver
  state it was given, so it adds nothing to the log of transport calls.
\<close>

theorem write_then_read_cached:
  assumes "WritableRegister r" and "\<not> volatile r"
    and "unat (address r) < tmc_register_count" and "cache_ok s"
  shows "read dev r (snd (write dev r v s)) = (Inr v, snd (write dev r v s))"
  using assms
  by (simp add: read_def WritableRegister_def write_cache cache_ok_def)

theorem write_then_read_cached_witness:
  "WritableRegister VMAX \<and> \<not> volatile VMAX \<and> unat (address VMAX) < tmc_register_count
   \<and> cache_ok new_driver
   \<and> read failing_device VMAX (snd (write failing_device VMAX 0x12345678 new_driver))
       = (Inr 0x12345678, snd (write failing_device VMAX 0x12345678 new_driver))"
  using write_then_read_cached [of VMAX new_driver failing_device "0x12345678"]
  by (simp add: WritableRegister_def VMAX_def cache_ok_def new_driver_def tmc_register_count_def)

subsection \<open>C5: the cache after a failed write\<close>

text \<open>
  C5, as claimed: a write whose bus transfer fails leaves the cache slot unchanged.
  On a transport that fails every transfer, writing 1000 to \<open>VMAX\<close> returns
  \<open>SPI_TRANSFER_FAILED\<close>, and the slot, 0 before, holds 1000 afterwards.
\<close>

theorem failed_write_changes_cache:
  "fst (write failing_device VMAX 1000 new_driver) = Inl SPI_TRANSFER_FAILED
   \<and> m_register_cache new_driver ! unat (address VMAX) = 0
   \<and> m_register_cache (snd (write failing_device VMAX 1000 new_driver)) ! unat (address VMAX) = 1000"
  by (simp add: write_result write_cache failing_device_def new_driver_def VMAX_def
      tmc_register_count_def)

text \<open>
  C5, amended.  Every register write, whether its transfer succeeds or fails, stores the value
  in the register's slot and changes no other slot (the slot is assigned before the frame is
  sent); a read never changes the cache.
\<close>

theorem write_updates_cache_regardless:
  "m_register_cache (snd (write dev r v s)) = (m_register_cache s)[unat (address r) := v]
   \<and> m_register_cache (snd (read dev r s)) = m_register_cache s"
proof
  have "m_register_cache (snd (write dev r v s))
      = m_register_cache (s\<lparr>m_register_cache := (m_register_cache s)[unat (address r) := v]\<rparr>)"
    unfolding write_def Let_def by (rule write_raw_cache)
  then show "m_register_cache (snd (write dev r v s)) = (m_register_cache s)[unat (address r) := v]"
    by simp
  show "m_register_cache (snd (read dev r s)) = m_register_cache s"
  proof (cases "volatile r \<or> access r = RO")
    case True
    then show ?thesis
      by (simp add: read_def read_raw_cache)
  next
    case False
    then show ?thesis
      by (simp add: read_def)
  qed
qed

subsection \<open>C6: \<open>get_shadow\<close>\<close>

text \<open>
  C6, as claimed: an address of 128 or more gives \<open>INVALID_PARAMETER\<close>.  At address 200 the
  code returns \<open>REGISTER_ACCESS_FAILED\<close>.
\<close>

theorem get_shadow_200:
  "get_shadow new_driver 200 = Inl REGISTER_ACCESS_FAILED
   \<and> get_shadow new_driver 200 \<noteq> Inl INVALID_PARAMETER"
  by (simp add: get_shadow_def new_driver_def tmc_register_count_def)

text \<open>
  C6, amended.  \<open>get_shadow\<close> returns the cache slot for every address in 0..127 and the error
  \<open>REGISTER_ACCESS_FAILED\<close> for every address of 128 or more.
\<close>

theorem get_shadow_range:
  assumes "cache_ok s"
  shows "(unat addr < 128 \<longrightarrow> get_shadow s addr = Inr (m_register_cache s ! unat addr))
       \<and> (128 \<le> unat addr \<longrightarrow> get_shadow s addr = Inl REGISTER_ACCESS_FAILED)"
  using assms by (simp add: get_shadow_def cache_ok_def tmc_register_count_def)

theorem get_shadow_range_witness:
  "cache_ok (snd (write ok_device VMAX 77 new_driver))
   \<and> unat (0x27 :: u8) < 128
   \<and> get_shadow (snd (write ok_device VMAX 77 new_driver)) 0x27 = Inr 77
   \<and> 128 \<le> unat (200 :: u8)
   \<and> get_shadow (snd (write ok_device VMAX 77 new_driver)) 200 = Inl REGISTER_ACCESS_FAILED"
proof -
  let ?s = "snd (write ok_device VMAX 77 new_driver)"
  have c: "cache_ok ?s"
    by (rule write_cache_ok [OF new_driver_cache_ok])
  have slot: "m_register_cache ?s ! unat (0x27 :: u8) = 77"
    by (simp add: write_cache VMAX_def new_driver_def tmc_register_count_def)
  from get_shadow_range [OF c, of "0x27"] slot
  have a: "get_shadow ?s 0x27 = Inr 77"
    by simp
  from get_shadow_range [OF c, of 200]
  have b: "get_shadow ?s 200 = Inl REGISTER_ACCESS_FAILED"
    by simp
  show ?thesis
    using a b c by simp
qed

section \<open>Fields: read-modify-write against the cache\<close>

lemma schema_fields_ok:
  "\<forall>f \<in> set schema_fields.
     field_fits f \<and> WritableField f \<and> ReadableField f \<and> \<not> volatile (register_t f)
     \<and> unat (address (register_t f)) < tmc_register_count"
  by (simp add: schema_fields_def field_defs reg_defs field_fits_def WritableField_def
      ReadableField_def WritableRegister_def ReadableRegister_def tmc_register_count_def)

lemma schema_masks:
  "map mask_of schema_fields =
     [0x1, 0x2, 0x4, 0x8, 0x10, 0x20, 0x40, 0x1F, 0x1F00, 0xF0000, 0xF, 0x70, 0x780, 0x18000, 0x4000,
      0xF000000, 0x10000000, 0x20000000, 0x1, 0x2, 0x400, 0x800, 0x3]"
  by (simp add: schema_fields_def field_defs mask_of_def)

lemma schema_siblings_disjoint:
  "\<forall>f \<in> set schema_fields. \<forall>g \<in> set schema_fields.
     g \<noteq> f \<and> register_t g = register_t f \<longrightarrow> mask_of g AND mask_of f = 0"
  by (simp add: schema_fields_def field_defs reg_defs mask_of_def)

lemma mask_of_alt: "mask_of f = push_bit (unat (start_bit f)) (mask (unat (bit_length f)))"
  by (simp add: mask_of_def mask_eq_exp_minus_1 push_bit_eq_mult)

lemma field_extract:
  fixes c v :: u32
  assumes "sh + n \<le> 32"
  shows "drop_bit sh (((c AND NOT (push_bit sh (mask n))) OR (push_bit sh v AND push_bit sh (mask n)))
                       AND push_bit sh (mask n))
         = v AND mask n"
  using assms
  by (intro bit_word_eqI) (auto simp: bit_simps)

lemma field_frame:
  fixes c x m m' :: u32
  assumes "m' AND m = 0"
  shows "((c AND NOT m) OR (x AND m)) AND m' = c AND m'"
proof (rule bit_word_eqI)
  fix k assume k: "k < LENGTH(32)"
  have "\<not> (bit m' k \<and> bit m k)"
    using assms by (metis bit_and_iff bit_0_eq bot_apply bot_bool_def)
  then show "bit (((c AND NOT m) OR (x AND m)) AND m') k = bit (c AND m') k"
    using k by (auto simp: bit_simps)
qed

lemma write_field_cache:
  "m_register_cache (snd (write_field dev f v s)) =
     (m_register_cache s)[unat (address (register_t f)) :=
        (m_register_cache s ! unat (address (register_t f)) AND NOT (mask_of f))
          OR (push_bit (shift_of f) v AND mask_of f)]"
  by (simp add: write_field_def Let_def write_cache)

lemma read_field_cached:
  assumes "\<not> volatile (register_t f)" and "access (register_t f) \<noteq> RO"
  shows "read_field dev f s =
           (Inr (drop_bit (shift_of f) (m_register_cache s ! unat (address (register_t f)) AND mask_of f)), s)"
  using assms by (simp add: read_field_def read_nonvolatile)

lemma field_roundtrip:
  assumes fits: "field_fits f"
    and wr: "WritableField f" and nv: "\<not> volatile (register_t f)"
    and addr: "unat (address (register_t f)) < tmc_register_count" and ok: "cache_ok s"
  shows "fst (read_field dev f (snd (write_field dev f v s)))
           = Inr (v AND (push_bit (unat (bit_length f)) 1 - 1))
       \<and> (\<forall>g. register_t g = register_t f \<and> mask_of g AND mask_of f = 0 \<longrightarrow>
             fst (read_field dev g (snd (write_field dev f v s))) = fst (read_field dev g s))
       \<and> (m_register_cache (snd (write_field dev f v s)) ! unat (address (register_t f))) AND NOT (mask_of f)
           = (m_register_cache s ! unat (address (register_t f))) AND NOT (mask_of f)"
proof -
  let ?a = "unat (address (register_t f))"
  let ?c = "m_register_cache s ! ?a"
  let ?s' = "snd (write_field dev f v s)"
  have ro: "access (register_t f) \<noteq> RO"
    using wr by (simp add: WritableField_def WritableRegister_def)
  have len: "?a < length (m_register_cache s)"
    using addr ok by (simp add: cache_ok_def)
  have slot: "m_register_cache ?s' ! ?a = (?c AND NOT (mask_of f)) OR (push_bit (shift_of f) v AND mask_of f)"
    using len by (simp add: write_field_cache)
  have one: "fst (read_field dev f ?s') = Inr (v AND (push_bit (unat (bit_length f)) 1 - 1))"
  proof -
    have "drop_bit (shift_of f) (m_register_cache ?s' ! ?a AND mask_of f) = v AND mask (unat (bit_length f))"
      unfolding slot mask_of_alt shift_of_def
      by (rule field_extract) (use fits in \<open>simp add: field_fits_def\<close>)
    then show ?thesis
      using nv ro by (simp add: read_field_cached mask_eq_exp_minus_1 push_bit_eq_mult)
  qed
  have two: "fst (read_field dev g ?s') = fst (read_field dev g s)"
    if g: "register_t g = register_t f" "mask_of g AND mask_of f = 0" for g
  proof -
    have "m_register_cache ?s' ! ?a AND mask_of g = ?c AND mask_of g"
      unfolding slot using g(2) by (rule field_frame)
    then show ?thesis
      using nv ro g(1) by (simp add: read_field_cached)
  qed
  have three: "m_register_cache ?s' ! ?a AND NOT (mask_of f) = ?c AND NOT (mask_of f)"
    unfolding slot by (rule bit_word_eqI) (auto simp: bit_simps)
  show ?thesis
    using one two three by blast
qed

subsection \<open>C4: \<open>write_field\<close>, then \<open>read_field\<close>\<close>

text \<open>
  C4.  For every field \<open>f\<close> the schema defines and every value \<open>v\<close>, \<open>write_field f v\<close>
  followed by \<open>read_field f\<close> returns \<open>v\<close> restricted to the field's width,
  \<open>v AND ((1 << Length) - 1)\<close>; every other field of the same register reads as it did
  before, and no bit of the register's slot outside the field's mask changes.  (Lemma
  \<open>field_roundtrip\<close> is the same fact for any field that fits in 32 bits and whose register is
  writable, not volatile and below address 128.)
\<close>

theorem write_field_then_read_field:
  assumes "f \<in> set schema_fields" and "cache_ok s"
  shows "fst (read_field dev f (snd (write_field dev f v s)))
           = Inr (v AND (push_bit (unat (bit_length f)) 1 - 1))
       \<and> (\<forall>g \<in> set schema_fields. g \<noteq> f \<and> register_t g = register_t f \<longrightarrow>
             fst (read_field dev g (snd (write_field dev f v s))) = fst (read_field dev g s))
       \<and> (m_register_cache (snd (write_field dev f v s)) ! unat (address (register_t f)))
             AND NOT (mask_of f)
           = (m_register_cache s ! unat (address (register_t f))) AND NOT (mask_of f)"
proof -
  from assms(1) schema_fields_ok
  have f: "field_fits f" "WritableField f" "\<not> volatile (register_t f)"
      "unat (address (register_t f)) < tmc_register_count"
    by blast+
  note rt = field_roundtrip [OF f assms(2), of dev v]
  have "fst (read_field dev g (snd (write_field dev f v s))) = fst (read_field dev g s)"
    if "g \<in> set schema_fields" "g \<noteq> f" "register_t g = register_t f" for g
  proof -
    have "mask_of g AND mask_of f = 0"
      using schema_siblings_disjoint assms(1) that by blast
    with rt that(3) show ?thesis
      by blast
  qed
  with rt show ?thesis
    by blast
qed

theorem write_field_then_read_field_witness:
  "i_run_t \<in> set schema_fields \<and> i_hold_t \<in> set schema_fields
   \<and> cache_ok (snd (write_field ok_device i_hold_t 10 new_driver))
   \<and> fst (read_field ok_device i_run_t
            (snd (write_field ok_device i_run_t 0x34
               (snd (write_field ok_device i_hold_t 10 new_driver))))) = Inr 0x14
   \<and> fst (read_field ok_device i_hold_t
            (snd (write_field ok_device i_run_t 0x34
               (snd (write_field ok_device i_hold_t 10 new_driver))))) = Inr 10"
proof -
  let ?s = "snd (write_field ok_device i_hold_t 10 new_driver)"
  have m: "i_run_t \<in> set schema_fields" "i_hold_t \<in> set schema_fields"
    by (simp_all add: schema_fields_def)
  have c: "cache_ok ?s"
    by (simp add: write_field_def Let_def write_cache_ok new_driver_cache_ok)
  have before: "fst (read_field ok_device i_hold_t ?s) = Inr 10"
    by (simp add: read_field_cached write_field_cache i_hold_t_def IHOLD_IRUN_def new_driver_def
        tmc_register_count_def mask_of_def shift_of_def)
  have sib: "i_hold_t \<noteq> i_run_t \<and> register_t i_hold_t = register_t i_run_t"
    by (simp add: i_hold_t_def i_run_t_def)
  from write_field_then_read_field [OF m(1) c, of ok_device "0x34"] m(2) sib before
  have "fst (read_field ok_device i_run_t (snd (write_field ok_device i_run_t 0x34 ?s)))
          = Inr (0x34 AND (push_bit (unat (bit_length i_run_t)) 1 - 1))"
    and "fst (read_field ok_device i_hold_t (snd (write_field ok_device i_run_t 0x34 ?s))) = Inr 10"
    by auto
  then show ?thesis
    using m c by (simp add: i_run_t_def)
qed

section \<open>Select and deselect\<close>

lemma bracketed_append: "bracketed xs \<Longrightarrow> bracketed ys \<Longrightarrow> bracketed (xs @ ys)"
  by (induction xs rule: bracketed.induct) simp_all

lemma foldl_select_line_bracketed:
  "bracketed ext \<Longrightarrow> foldl select_line b ext = (if ext = [] then b else False)"
  by (induction ext arbitrary: b rule: bracketed.induct) (simp_all add: select_line_def)

lemma bus_released_appendI:
  assumes "spi_log s' = spi_log s @ ext" and "bracketed ext"
  shows "bus_released s s'"
  using assms
  by (simp add: bus_released_def log_extended_def calls_during_def is_selected_def
      foldl_select_line_bracketed)

lemma bus_released_appendD:
  assumes "bus_released s s'"
  shows "spi_log s' = spi_log s @ calls_during s s' \<and> bracketed (calls_during s s')"
  using assms
  by (metis append_take_drop_id bus_released_def calls_during_def log_extended_def)

lemma bus_released_refl: "bus_released s s"
  by (rule bus_released_appendI [of _ _ "[]"]) simp_all

lemma bus_released_trans:
  assumes "bus_released s s'" and "bus_released s' s''"
  shows "bus_released s s''"
proof -
  from bus_released_appendD [OF assms(1)] bus_released_appendD [OF assms(2)]
  have "spi_log s'' = spi_log s @ (calls_during s s' @ calls_during s' s'')"
    and "bracketed (calls_during s s' @ calls_during s' s'')"
    by (simp_all add: bracketed_append)
  then show ?thesis
    by (rule bus_released_appendI)
qed

lemma transfer_released: "bus_released s (snd (transfer dev tx rx s))"
  by (rule bus_released_appendI [OF transfer_log]) simp

lemma write_raw_released: "bus_released s (snd (write_raw dev addr val s))"
  by (rule bus_released_appendI [OF write_raw_log]) simp

lemma read_raw_released: "bus_released s (snd (read_raw dev addr s))"
proof -
  let ?tx = "(addr AND 0x7F) # replicate 4 0"
  let ?t1 = "transfer dev ?tx (replicate rx_tx_buffer_size 0) s"
  let ?t2 = "transfer dev (?tx[0 := 0]) (snd (fst ?t1)) (snd ?t1)"
  have 1: "bus_released s (snd ?t1)"
    by (rule transfer_released)
  have 2: "bus_released s (snd ?t2)"
    by (rule bus_released_trans [OF 1 transfer_released])
  have "snd (read_raw dev addr s) = snd ?t1 \<or> snd (read_raw dev addr s) = snd ?t2"
    by (simp add: read_raw_def Let_def split_beta split: sum.splits)
  then show ?thesis
    using 1 2 by auto
qed

lemma write_released: "bus_released s (snd (write dev r val s))"
  by (rule bus_released_appendI [OF write_log]) simp

lemma write_field_released: "bus_released s (snd (write_field dev f val s))"
proof -
  have "spi_log (snd (write_field dev f val s)) = spi_log s @ calls_during s (snd (write_field dev f val s))
        \<and> bracketed (calls_during s (snd (write_field dev f val s)))"
    by (simp add: write_field_def Let_def write_log calls_during_def)
  then show ?thesis
    using bus_released_appendI by blast
qed

lemma read_released: "bus_released s (snd (read dev r s))"
  by (simp add: read_def read_raw_released bus_released_refl)

lemma read_field_released: "bus_released s (snd (read_field dev f s))"
proof -
  have "snd (read_field dev f s) = snd (read dev (register_t f) s)"
    by (simp add: read_field_def split_beta split: sum.splits)
  then show ?thesis
    by (simp add: read_released)
qed

subsection \<open>C10: every transfer is bracketed\<close>

text \<open>
  C10.  Whatever the transport answers, each engine operation (\<open>transfer\<close>, \<open>write_raw\<close>,
  \<open>read_raw\<close>, \<open>write\<close>, \<open>write_field\<close>, \<open>read\<close>, \<open>read_field\<close>) only appends
  select / transfer / deselect triples to the log of transport calls, so every select is
  followed by its deselect, also when the transfer reports failure, and the chip-select line
  is not left active by the operation.
\<close>

theorem bus_always_released:
  "bus_released s (snd (transfer dev tx rx s))
   \<and> bus_released s (snd (write_raw dev addr v s))
   \<and> bus_released s (snd (read_raw dev addr s))
   \<and> bus_released s (snd (write dev r v s))
   \<and> bus_released s (snd (write_field dev f v s))
   \<and> bus_released s (snd (read dev r s))
   \<and> bus_released s (snd (read_field dev f s))"
  by (simp add: transfer_released write_raw_released read_raw_released write_released
      write_field_released read_released read_field_released)

theorem bus_always_released_witness:
  "log_extended new_driver (snd (write failing_device VMAX 5 new_driver))
   \<and> calls_during new_driver (snd (write failing_device VMAX 5 new_driver))
        = [Select, Transfer [0xA7, 0, 0, 0, 5] False, Deselect]
   \<and> \<not> is_selected (spi_log new_driver)
   \<and> \<not> is_selected (spi_log (snd (write failing_device VMAX 5 new_driver)))
   \<and> calls_during new_driver (snd (read failing_device XACTUAL new_driver))
        = [Select, Transfer [0x21, 0, 0, 0, 0] False, Deselect]
   \<and> \<not> is_selected (spi_log (snd (read failing_device XACTUAL new_driver)))"
proof -
  have n: "\<not> is_selected (spi_log new_driver)"
    by (simp add: new_driver_def is_selected_def)
  from bus_always_released [where s = new_driver and dev = failing_device and r = VMAX and v = 5] n
  have w: "log_extended new_driver (snd (write failing_device VMAX 5 new_driver))"
      "\<not> is_selected (spi_log (snd (write failing_device VMAX 5 new_driver)))"
    by (simp_all add: bus_released_def)
  from bus_always_released [where s = new_driver and dev = failing_device and r = XACTUAL] n
  have r: "\<not> is_selected (spi_log (snd (read failing_device XACTUAL new_driver)))"
    by (simp add: bus_released_def)
  have cw: "calls_during new_driver (snd (write failing_device VMAX 5 new_driver))
        = [Select, Transfer [0xA7, 0, 0, 0, 5] False, Deselect]"
    by (simp add: calls_during_def write_log write_frame_bytes VMAX_def failing_device_def new_driver_def)
  have cr: "calls_during new_driver (snd (read failing_device XACTUAL new_driver))
        = [Select, Transfer [0x21, 0, 0, 0, 0] False, Deselect]"
    by (simp add: calls_during_def read_def read_raw_def transfer_def Let_def XACTUAL_def
        failing_device_def new_driver_def numeral_eq_Suc)
  show ?thesis
    using n w r cw cr by simp
qed

section \<open>Runtime register access\<close>

lemma register_tuple_distinct: "distinct (map address register_tuple)"
  by (simp add: register_tuple_def reg_defs)

lemma find_fold_miss:
  "\<forall>r \<in> set rs. address r \<noteq> a \<Longrightarrow>
     snd (fold (\<lambda>r (idx, result). (Suc idx, if address r = a then idx else result)) rs (k, res)) = res"
  by (induction rs arbitrary: k res) simp_all

lemma find_fold_hit:
  assumes "distinct (map address rs)" and "i < length rs"
  shows "snd (fold (\<lambda>r (idx, result). (Suc idx, if address r = address (rs ! i) then idx else result))
                rs (k, res)) = k + i"
  using assms
proof (induction rs arbitrary: k res i)
  case Nil
  then show ?case by simp
next
  case (Cons x rs)
  show ?case
  proof (cases i)
    case 0
    from Cons.prems(1) have "\<forall>r \<in> set rs. address r \<noteq> address x"
      by (metis distinct.simps(2) imageI list.simps(9) list.set_map)
    then show ?thesis
      using 0 by (simp add: find_fold_miss)
  next
    case (Suc j)
    with Cons.prems have j: "j < length rs" and d: "distinct (map address rs)"
      by simp_all
    have ne: "address x \<noteq> address (rs ! j)"
      using Cons.prems(1) j by (metis distinct.simps(2) imageI list.simps(9) list.set_map nth_mem)
    show ?thesis
      using Cons.IH [OF d j, of "Suc k" res] Suc ne by simp
  qed
qed

lemma tuple_get_registered:
  assumes "r \<in> set register_tuple"
  shows "tuple_get (address r) = r"
proof -
  from assms obtain i where i: "i < length register_tuple" "register_tuple ! i = r"
    by (auto simp: in_set_conv_nth)
  have "find_index (address r) = i"
    unfolding find_index_def using find_fold_hit [OF register_tuple_distinct i(1), of 0] i(2)
    by simp
  then show ?thesis
    by (simp add: tuple_get_def i(2))
qed

lemma fold_table_length:
  "length (fold (\<lambda>r table. table[unat (address r) := F r]) rs t) = length t"
  by (induction rs arbitrary: t) simp_all

lemma fold_table_other:
  "\<forall>r \<in> set rs. address r \<noteq> a \<Longrightarrow>
     fold (\<lambda>r table. table[unat (address r) := F r]) rs t ! unat a = t ! unat a"
  by (induction rs arbitrary: t) (simp_all add: word_unat_eq_iff)

lemma set_table_alt:
  "create_set_lookup_table =
     fold (\<lambda>r table. table[unat (address r) := (if RO \<noteq> access r then Some (address r) else None)])
       register_tuple (replicate tmc_register_count None)"
  unfolding create_set_lookup_table_def
  by (rule arg_cong [where f = "\<lambda>f. fold f register_tuple (replicate tmc_register_count None)"])
    (auto simp: fun_eq_iff)

lemma tables_length:
  "length register_lookup_table = 128" "length register_set_lookup_table = 128"
  by (simp_all add: register_lookup_table_def register_set_lookup_table_def create_lookup_table_def
      set_table_alt fold_table_length tmc_register_count_def)

lemma tables_unregistered:
  assumes "unat a < 128" and "a \<notin> address ` set register_tuple"
  shows "register_lookup_table ! unat a = None" "register_set_lookup_table ! unat a = None"
proof -
  have "\<forall>r \<in> set register_tuple. address r \<noteq> a"
    using assms(2) by auto
  then show "register_lookup_table ! unat a = None" "register_set_lookup_table ! unat a = None"
    using assms(1)
    by (simp_all add: register_lookup_table_def register_set_lookup_table_def create_lookup_table_def
        set_table_alt fold_table_other tmc_register_count_def)
qed

lemma fold_table_hit:
  assumes "distinct (map address rs)" and "r \<in> set rs" and "unat (address r) < length t"
  shows "fold (\<lambda>r table. table[unat (address r) := F r]) rs t ! unat (address r) = F r"
  using assms
proof (induction rs arbitrary: t)
  case Nil
  then show ?case by simp
next
  case (Cons x rs)
  show ?case
  proof (cases "r \<in> set rs")
    case True
    with Cons show ?thesis by simp
  next
    case False
    with Cons.prems have x: "x = r"
      by auto
    from Cons.prems(1) have "address x \<notin> address ` set rs"
      by simp
    then have other: "\<forall>y \<in> set rs. address y \<noteq> address r"
      unfolding x by (metis imageI)
    show ?thesis
      using Cons.prems(3) by (simp add: x fold_table_other [OF other])
  qed
qed

lemma register_tuple_in_range: "\<forall>r \<in> set register_tuple. unat (address r) < 128"
  by (simp add: register_tuple_def reg_defs)

lemma tables_registered:
  assumes "r \<in> set register_tuple"
  shows "register_lookup_table ! unat (address r) = Some (address r)"
    and "register_set_lookup_table ! unat (address r) = (if access r = RO then None else Some (address r))"
  using assms register_tuple_in_range
  by (auto simp: register_lookup_table_def register_set_lookup_table_def create_lookup_table_def
      set_table_alt tmc_register_count_def fold_table_hit [OF register_tuple_distinct])

subsection \<open>C9: the errors of the dynamic path\<close>

text \<open>
  C9.  In the dynamic path, reading or writing an address outside the 128 entries of the
  tables returns \<open>INVALID_PARAMETER\<close>; reading an address whose entry in the read table is
  empty returns \<open>INVALID_PARAMETER\<close>; writing an address whose entry in the write table is
  empty returns \<open>REGISTER_ACCESS_FAILED\<close>.  The read table has an entry for every register
  of the schema; the write table has none for the read-only registers of the schema, and
  neither table has one for an address below 128 that the schema does not register.  In each
  of these error cases the driver state is returned unchanged.
\<close>

theorem dynamic_dispatch_errors:
  "(128 \<le> unat a \<longrightarrow>
      get_register_value dev a s = (Inl INVALID_PARAMETER, s)
      \<and> set_register_value dev a v s = (Inl INVALID_PARAMETER, s))
   \<and> (unat a < 128 \<and> register_lookup_table ! unat a = None \<longrightarrow>
      get_register_value dev a s = (Inl INVALID_PARAMETER, s))
   \<and> (unat a < 128 \<and> register_set_lookup_table ! unat a = None \<longrightarrow>
      set_register_value dev a v s = (Inl REGISTER_ACCESS_FAILED, s))
   \<and> (\<forall>r \<in> set register_tuple.
        register_lookup_table ! unat (address r) \<noteq> None
        \<and> (register_set_lookup_table ! unat (address r) = None) = (access r = RO))
   \<and> (unat a < 128 \<and> a \<notin> address ` set register_tuple \<longrightarrow>
        register_lookup_table ! unat a = None \<and> register_set_lookup_table ! unat a = None)"
proof -
  have big: "128 \<le> unat a \<Longrightarrow>
      get_register_value dev a s = (Inl INVALID_PARAMETER, s)
      \<and> set_register_value dev a v s = (Inl INVALID_PARAMETER, s)"
    by (simp add: get_register_value_def set_register_value_def tables_length)
  have rd: "unat a < 128 \<Longrightarrow> register_lookup_table ! unat a = None \<Longrightarrow>
      get_register_value dev a s = (Inl INVALID_PARAMETER, s)"
    by (simp add: get_register_value_def tables_length)
  have wr: "unat a < 128 \<Longrightarrow> register_set_lookup_table ! unat a = None \<Longrightarrow>
      set_register_value dev a v s = (Inl REGISTER_ACCESS_FAILED, s)"
    by (simp add: set_register_value_def tables_length)
  have reg: "\<forall>r \<in> set register_tuple.
        register_lookup_table ! unat (address r) \<noteq> None
        \<and> (register_set_lookup_table ! unat (address r) = None) = (access r = RO)"
    by (simp add: tables_registered)
  show ?thesis
    using big rd wr reg tables_unregistered by blast
qed

theorem dynamic_dispatch_errors_witness:
  "128 \<le> unat (200 :: u8)
   \<and> get_register_value ok_device 200 new_driver = (Inl INVALID_PARAMETER, new_driver)
   \<and> set_register_value ok_device 200 5 new_driver = (Inl INVALID_PARAMETER, new_driver)
   \<and> unat (0x02 :: u8) < 128 \<and> 0x02 \<notin> address ` set register_tuple
   \<and> get_register_value ok_device 0x02 new_driver = (Inl INVALID_PARAMETER, new_driver)
   \<and> set_register_value ok_device 0x02 5 new_driver = (Inl REGISTER_ACCESS_FAILED, new_driver)
   \<and> GSTAT \<in> set register_tuple \<and> access GSTAT = RO \<and> address GSTAT = 0x01
   \<and> set_register_value ok_device 0x01 5 new_driver = (Inl REGISTER_ACCESS_FAILED, new_driver)"
proof -
  have a: "128 \<le> unat (200 :: u8)" "unat (0x02 :: u8) < 128" "unat (0x01 :: u8) < 128"
    by simp_all
  have b: "0x02 \<notin> address ` set register_tuple"
    by (simp add: register_tuple_def reg_defs)
  have g: "GSTAT \<in> set register_tuple" "access GSTAT = RO" "address GSTAT = 0x01"
    by (simp_all add: register_tuple_def GSTAT_def)
  note t200 = dynamic_dispatch_errors [of 200 ok_device new_driver 5]
  note t2 = dynamic_dispatch_errors [of "0x02" ok_device new_driver 5]
  note t1 = dynamic_dispatch_errors [of "0x01" ok_device new_driver 5]
  from t1 g have "register_set_lookup_table ! unat (0x01 :: u8) = None"
    by metis
  with t1 a(3) have w1: "set_register_value ok_device 0x01 5 new_driver = (Inl REGISTER_ACCESS_FAILED, new_driver)"
    by blast
  from t2 a(2) b
  have w2: "get_register_value ok_device 0x02 new_driver = (Inl INVALID_PARAMETER, new_driver)"
      "set_register_value ok_device 0x02 5 new_driver = (Inl REGISTER_ACCESS_FAILED, new_driver)"
    by blast+
  from t200 a(1)
  have w200: "get_register_value ok_device 200 new_driver = (Inl INVALID_PARAMETER, new_driver)"
      "set_register_value ok_device 200 5 new_driver = (Inl INVALID_PARAMETER, new_driver)"
    by blast+
  show ?thesis
    using a b g w1 w2 w200 by simp
qed

section \<open>Sequences of register writes\<close>

subsection \<open>Plans compose\<close>

lemma transfers_append: "transfers (xs @ ys) = transfers xs @ transfers ys"
  by (induction xs rule: transfers.induct) simp_all

lemma frames_append: "frames (xs @ ys) = frames xs @ frames ys"
  by (induction xs rule: frames.induct) simp_all

lemma runs_plan_all_ok:
  "runs_plan P ts \<Longrightarrow> list_all (\<lambda>ok. ok) ts \<Longrightarrow> runs_plan (P @ Q) (ts @ us) = runs_plan Q us"
proof (induction P arbitrary: ts)
  case Nil
  then show ?case by simp
next
  case (Cons k ks)
  from Cons.prems have k: "k \<le> length ts"
    by simp
  from Cons.prems(2) have "list_all (\<lambda>ok. ok) (take k ts @ drop k ts)"
    by simp
  then have t: "list_all (\<lambda>ok. ok) (take k ts)" and d: "list_all (\<lambda>ok. ok) (drop k ts)"
    unfolding list_all_append by simp_all
  with Cons.prems have "runs_plan ks (drop k ts)"
    by simp
  from Cons.IH [OF this d] k t show ?case
    by simp
qed

lemma runs_plan_failed:
  "runs_plan P ts \<Longrightarrow> \<not> list_all (\<lambda>ok. ok) ts \<Longrightarrow> runs_plan (P @ Q) ts"
proof (induction P arbitrary: ts)
  case Nil
  then show ?case by simp
next
  case (Cons k ks)
  show ?case
  proof (cases "list_all (\<lambda>ok. ok) (take k ts)")
    case True
    with Cons.prems have r: "runs_plan ks (drop k ts)" and k: "k \<le> length ts"
      by simp_all
    have "\<not> list_all (\<lambda>ok. ok) (drop k ts)"
      using True Cons.prems(2) by (metis append_take_drop_id list_all_append)
    from Cons.IH [OF r this] True k show ?thesis
      by simp
  next
    case False
    with Cons.prems show ?thesis
      by simp
  qed
qed

lemma runs_plan_single: "runs_plan [1] ts \<Longrightarrow> length ts = 1"
  by (cases ts) (auto split: if_splits)

lemma run_followsI:
  assumes "spi_log s' = spi_log s @ ext" and "runs_plan P (transfers ext)"
    and "has_value r = list_all (\<lambda>ok. ok) (transfers ext)"
    and "\<not> has_value r \<Longrightarrow> r = Inl SPI_TRANSFER_FAILED"
  shows "run_follows P s (r, s')"
  using assms by (simp add: run_follows_def log_extended_def calls_during_def)

lemma run_followsD:
  assumes "run_follows P s out"
  obtains ext where "spi_log (snd out) = spi_log s @ ext" and "runs_plan P (transfers ext)"
    and "has_value (fst out) = list_all (\<lambda>ok. ok) (transfers ext)"
    and "\<not> has_value (fst out) \<longrightarrow> fst out = Inl SPI_TRANSFER_FAILED"
proof -
  from assms have "take (length (spi_log s)) (spi_log (snd out)) = spi_log s"
    by (simp add: run_follows_def Let_def log_extended_def)
  with append_take_drop_id [of "length (spi_log s)" "spi_log (snd out)"]
  have "spi_log (snd out) = spi_log s @ calls_during s (snd out)"
    by (simp add: calls_during_def)
  with assms that show ?thesis
    by (simp add: run_follows_def Let_def)
qed

lemma write_follows: "run_follows [1] s (write dev r v s)"
proof -
  have "run_follows [1] s (fst (write dev r v s), snd (write dev r v s))"
    by (rule run_followsI [OF write_log]) (auto simp: write_result has_value_def)
  then show ?thesis by simp
qed

lemma write_field_follows: "run_follows [1] s (write_field dev f v s)"
  unfolding write_field_def Let_def by (rule write_follows)

lemma pure_follows: "run_follows [] s (Inr x, s)"
  by (rule run_followsI [of _ _ "[]"]) (simp_all add: has_value_def)

lemma and_then_follows:
  assumes m: "\<And>s. run_follows P s (m s)" and f: "\<And>s. run_follows Q s (f s)"
  shows "run_follows (P @ Q) s (and_then m f s)"
proof -
  obtain r1 s1 where ms: "m s = (r1, s1)"
    by (cases "m s")
  from run_followsD [OF m [of s]] obtain e1 where
    "spi_log (snd (m s)) = spi_log s @ e1" "runs_plan P (transfers e1)"
      "has_value (fst (m s)) = list_all (\<lambda>ok. ok) (transfers e1)"
      "\<not> has_value (fst (m s)) \<longrightarrow> fst (m s) = Inl SPI_TRANSFER_FAILED"
    by blast
  then have e1: "spi_log s1 = spi_log s @ e1" "runs_plan P (transfers e1)"
      "has_value r1 = list_all (\<lambda>ok. ok) (transfers e1)" "\<not> has_value r1 \<longrightarrow> r1 = Inl SPI_TRANSFER_FAILED"
    by (simp_all only: ms fst_conv snd_conv)
  show ?thesis
  proof (cases r1)
    case (Inl e)
    then have nv: "\<not> has_value r1"
      by (simp add: has_value_def)
    with e1 Inl have e: "e = SPI_TRANSFER_FAILED"
      by simp
    have "and_then m f s = (Inl SPI_TRANSFER_FAILED, s1)"
      by (simp add: and_then_def ms Inl e)
    moreover have "run_follows (P @ Q) s (Inl SPI_TRANSFER_FAILED, s1)"
      using e1 nv
      by (intro run_followsI [OF e1(1)] runs_plan_failed) (simp_all add: has_value_def)
    ultimately show ?thesis by simp
  next
    case (Inr u)
    then have v: "list_all (\<lambda>ok. ok) (transfers e1)"
      using e1(3) by (simp add: has_value_def)
    have at: "and_then m f s = f s1"
      by (simp add: and_then_def ms Inr)
    from run_followsD [OF f [of s1]] obtain e2 where
      e2: "spi_log (snd (f s1)) = spi_log s1 @ e2" "runs_plan Q (transfers e2)"
        "has_value (fst (f s1)) = list_all (\<lambda>ok. ok) (transfers e2)"
        "\<not> has_value (fst (f s1)) \<longrightarrow> fst (f s1) = Inl SPI_TRANSFER_FAILED"
      by blast
    have "run_follows (P @ Q) s (fst (f s1), snd (f s1))"
    proof (rule run_followsI [of _ _ "e1 @ e2"])
      show "spi_log (snd (f s1)) = spi_log s @ e1 @ e2"
        using e1(1) e2(1) by simp
      show "runs_plan (P @ Q) (transfers (e1 @ e2))"
        using runs_plan_all_ok [OF e1(2) v] e2(2) by (simp add: transfers_append)
      show "has_value (fst (f s1)) = list_all (\<lambda>ok. ok) (transfers (e1 @ e2))"
        using e2(3) v by (simp add: transfers_append)
      show "\<not> has_value (fst (f s1)) \<Longrightarrow> fst (f s1) = Inl SPI_TRANSFER_FAILED"
        using e2(4) by simp
    qed
    with at show ?thesis by simp
  qed
qed

lemma and_then_single:
  assumes "\<And>s. run_follows [1] s (m s)" and "\<And>s. run_follows Q s (f s)"
  shows "run_follows (1 # Q) s (and_then m f s)"
  using and_then_follows [OF assms, of s] by simp

lemma eval_args_singles:
  assumes "\<forall>a \<in> set as. \<forall>s. run_follows [1] s (a s)"
  shows "\<exists>ext. spi_log (snd (eval_args as s)) = spi_log s @ ext
           \<and> length (transfers ext) = length as
           \<and> is_all_ok (fst (eval_args as s)) = list_all (\<lambda>ok. ok) (transfers ext)"
  using assms
proof (induction as arbitrary: s)
  case Nil
  then show ?case by (simp add: is_all_ok_def)
next
  case (Cons a as)
  obtain r1 s1 where a: "a s = (r1, s1)"
    by (cases "a s")
  from Cons.prems have "run_follows [1] s (a s)"
    by simp
  from run_followsD [OF this] obtain e1 where
    "spi_log (snd (a s)) = spi_log s @ e1" "runs_plan [1] (transfers e1)"
      "has_value (fst (a s)) = list_all (\<lambda>ok. ok) (transfers e1)"
    by blast
  then have e1: "spi_log s1 = spi_log s @ e1" "runs_plan [1] (transfers e1)"
      "has_value r1 = list_all (\<lambda>ok. ok) (transfers e1)"
    by (simp_all only: a fst_conv snd_conv)
  from e1(2) have l1: "length (transfers e1) = 1"
    by (rule runs_plan_single)
  from Cons.prems have "\<forall>a \<in> set as. \<forall>s. run_follows [1] s (a s)"
    by simp
  from Cons.IH [OF this, of s1] obtain e2 where
    e2: "spi_log (snd (eval_args as s1)) = spi_log s1 @ e2" "length (transfers e2) = length as"
      "is_all_ok (fst (eval_args as s1)) = list_all (\<lambda>ok. ok) (transfers e2)"
    by blast
  have "spi_log (snd (eval_args (a # as) s)) = spi_log s @ (e1 @ e2)"
    using e1(1) e2(1) by (simp add: a split_beta)
  moreover have "length (transfers (e1 @ e2)) = length (a # as)"
    using l1 e2(2) by (simp add: transfers_append)
  moreover have "is_all_ok (fst (eval_args (a # as) s)) = list_all (\<lambda>ok. ok) (transfers (e1 @ e2))"
    using e1(3) e2(3) by (simp add: a split_beta is_all_ok_def transfers_append)
  ultimately show ?case by blast
qed

lemma group_follows:
  assumes singles: "\<forall>a \<in> set as. \<forall>s. run_follows [1] s (a s)"
    and f: "\<And>s. run_follows Q s (f s)"
  shows "run_follows (length as # Q) s
           (let (args, s1) = eval_args as s
            in if \<not> is_all_ok args then (Inl SPI_TRANSFER_FAILED, s1) else f s1)"
proof -
  obtain rs s1 where ev: "eval_args as s = (rs, s1)"
    by (cases "eval_args as s")
  from eval_args_singles [OF singles, of s] obtain e1 where
    "spi_log (snd (eval_args as s)) = spi_log s @ e1" "length (transfers e1) = length as"
      "is_all_ok (fst (eval_args as s)) = list_all (\<lambda>ok. ok) (transfers e1)"
    by blast
  then have e1: "spi_log s1 = spi_log s @ e1" "length (transfers e1) = length as"
      "is_all_ok rs = list_all (\<lambda>ok. ok) (transfers e1)"
    by (simp_all only: ev fst_conv snd_conv)
  show ?thesis
  proof (cases "is_all_ok rs")
    case False
    have "run_follows (length as # Q) s (Inl SPI_TRANSFER_FAILED, s1)"
      using e1 False by (intro run_followsI [OF e1(1)]) (simp_all add: has_value_def)
    with False show ?thesis
      by (simp add: ev)
  next
    case True
    from run_followsD [OF f [of s1]] obtain e2 where
      e2: "spi_log (snd (f s1)) = spi_log s1 @ e2" "runs_plan Q (transfers e2)"
        "has_value (fst (f s1)) = list_all (\<lambda>ok. ok) (transfers e2)"
        "\<not> has_value (fst (f s1)) \<longrightarrow> fst (f s1) = Inl SPI_TRANSFER_FAILED"
      by blast
    have "run_follows (length as # Q) s (fst (f s1), snd (f s1))"
    proof (rule run_followsI [of _ _ "e1 @ e2"])
      show "spi_log (snd (f s1)) = spi_log s @ e1 @ e2"
        using e1(1) e2(1) by simp
      show "runs_plan (length as # Q) (transfers (e1 @ e2))"
        using e1(2,3) True e2(2) by (simp add: transfers_append)
      show "has_value (fst (f s1)) = list_all (\<lambda>ok. ok) (transfers (e1 @ e2))"
        using e2(3) e1(3) True by (simp add: transfers_append)
      show "\<not> has_value (fst (f s1)) \<Longrightarrow> fst (f s1) = Inl SPI_TRANSFER_FAILED"
        using e2(4) by simp
    qed
    with True show ?thesis
      by (simp add: ev)
  qed
qed

subsection \<open>The plans of the sequencer and of the driver\<close>

lemma read_raw_follows: "run_follows [1, 1] s (read_raw dev addr s)"
  by (auto simp: run_follows_def read_raw_def transfer_def Let_def split_beta calls_during_def
      log_extended_def has_value_def split: sum.splits)

lemma read_follows: "run_follows (read_plan r) s (read dev r s)"
  by (simp add: read_def read_plan_def read_raw_follows pure_follows del: One_nat_def)

lemma and_then_assoc: "and_then (and_then a b) c = and_then a (and_then b c)"
  by (auto simp: and_then_def fun_eq_iff split: prod.splits sum.splits)

lemma set_advanced_acceleration_follows:
  "run_follows [1, 1, 1, 1] s (set_advanced_acceleration fp dev c a1 amax dmax d1 s)"
  unfolding set_advanced_acceleration_def Let_def and_then_assoc
  by (intro and_then_single write_follows)

lemma set_linear_acceleration_follows:
  "run_follows [1, 1, 1, 1] s (set_linear_acceleration fp dev c a d s)"
  unfolding set_linear_acceleration_def Let_def and_then_assoc
  by (intro and_then_single write_follows)

lemma set_ihold_follows: "run_follows [1, 1] s (set_ihold fp dev c x s)"
  unfolding set_ihold_def Let_def
  by (intro and_then_single write_field_follows)

lemma move_to_follows: "run_follows [1, 1, 1] s (move_to fp dev c step v s)"
  unfolding move_to_def and_then_assoc set_ramp_mode_def set_start_speed_def
  by (intro and_then_single write_follows)

lemma rotate_follows: "run_follows [1, 1] s (rotate_velocity fp dev c v s)"
  unfolding rotate_velocity_def set_ramp_mode_def set_max_velocity_def Let_def
  by (intro and_then_single) (simp_all add: write_follows del: One_nat_def)

lemma apply_default_configuration_follows:
  "run_follows [15, 1] s (apply_default_configuration dev s)"
proof -
  let ?as = "[write dev VSTOP 100, write dev V1 40000, write dev AMAX 10000,
               write dev DMAX 10000, write dev A1 2000, write dev D1 10000,
               write dev TWPOWER_DOWN 10,
               write_field dev i_hold_delay_t 6, write_field dev i_hold_t 4,
               write_field dev i_run_t 16,
               write_field dev toff_t 3, write_field dev hstrt_t 4, write_field dev hend_t 1,
               write_field dev tbl_t 2,
               write dev XTARGET 0]"
  have singles: "\<forall>a \<in> set ?as. \<forall>s. run_follows [1] s (a s)"
    by (simp add: write_follows write_field_follows del: One_nat_def)
  have len: "length ?as = 15"
    by simp
  have "run_follows (length ?as # [1]) s (apply_default_configuration dev s)"
    unfolding apply_default_configuration_def
    by (rule group_follows [OF singles]) (rule write_follows)
  then show ?thesis
    by (simp only: len)
qed

lemma group_follows_case:
  assumes "\<forall>a \<in> set as. \<forall>s. run_follows [1] s (a s)"
    and "\<And>s. run_follows Q s (f s)" and "n = length as"
  shows "run_follows (n # Q) s
           (case eval_args as s of
              (args, s1) \<Rightarrow> if \<not> is_all_ok args then (Inl SPI_TRANSFER_FAILED, s1) else f s1)"
  using group_follows [OF assms(1,2), of s] assms(3) by (simp add: Let_def)

lemma and_then_four:
  assumes "\<And>s. run_follows [1, 1, 1, 1] s (m s)" and "\<And>s. run_follows Q s (f s)"
  shows "run_follows (1 # 1 # 1 # 1 # Q) s (and_then m f s)"
  using and_then_follows [OF assms, of s] by simp

lemma setters_follow:
  "run_follows [1] s (set_start_speed fp dev c v s)"
  "run_follows [1] s (set_stop_velocity fp dev c v s)"
  "run_follows [1] s (set_ramp_transition_velocity fp dev c v s)"
  "run_follows [1] s (set_max_velocity fp dev c v s)"
  "run_follows [1] s (set_stealth_chop dev b s)"
  "run_follows [1] s (set_ramp_mode dev mode s)"
  unfolding set_start_speed_def set_stop_velocity_def set_ramp_transition_velocity_def
    set_max_velocity_def set_stealth_chop_def set_ramp_mode_def Let_def
  by (rule write_follows write_field_follows)+

lemma apply_settings_follows:
  "run_follows [1, 1, 1, 1, 1, 1, 1, 1, 1, 3, 1, 4, 1, 2] s (apply_settings fp dev c st s)"
  unfolding apply_settings_def Let_def
  apply (rule and_then_single, rule write_follows)
  apply (rule and_then_single, rule setters_follow)
  apply (rule and_then_single, rule setters_follow)
  apply (rule and_then_single, rule setters_follow)
  apply (rule and_then_single, rule setters_follow)
  apply (rule and_then_four, rule set_advanced_acceleration_follows)
  apply (rule group_follows_case)
    apply (simp add: write_field_follows del: One_nat_def)
   apply (rule and_then_single, rule write_follows)
   apply (rule group_follows_case)
     apply (simp add: write_field_follows del: One_nat_def)
    apply (rule and_then_single, rule setters_follow)
    apply (rule group_follows_case)
      apply (simp add: write_follows del: One_nat_def)
     apply (rule pure_follows)
    apply simp_all
  done

lemma get_all_fold_failed:
  "fold (get_all_registers_step dev) rs ((regs, idx, False), s) = ((regs, idx, False), s)"
  by (induction rs) (simp_all add: get_all_registers_step_def)

lemma get_all_fold:
  assumes "fold (get_all_registers_step dev) rs ((regs, idx, True), s) = ((regs', idx', ok), s')"
  shows "\<exists>ext. spi_log s' = spi_log s @ ext
         \<and> runs_plan (concat (map read_plan rs)) (transfers ext)
         \<and> ok = list_all (\<lambda>ok. ok) (transfers ext)"
  using assms
proof (induction rs arbitrary: regs idx s)
  case Nil
  then show ?case by simp
next
  case (Cons r rs)
  obtain r1 s1 where rd: "read dev r s = (r1, s1)"
    by (cases "read dev r s")
  from run_followsD [OF read_follows [of r s dev]] obtain e1 where
    "spi_log (snd (read dev r s)) = spi_log s @ e1" "runs_plan (read_plan r) (transfers e1)"
    "has_value (fst (read dev r s)) = list_all (\<lambda>ok. ok) (transfers e1)"
    by blast
  then have e1: "spi_log s1 = spi_log s @ e1" "runs_plan (read_plan r) (transfers e1)"
    "has_value r1 = list_all (\<lambda>ok. ok) (transfers e1)"
    by (simp_all only: rd fst_conv snd_conv)
  show ?case
  proof (cases r1)
    case (Inl e)
    then have nv: "\<not> list_all (\<lambda>ok. ok) (transfers e1)"
      using e1(3) by (simp add: has_value_def)
    have "get_all_registers_step dev r ((regs, idx, True), s) = ((regs, idx, False), s1)"
      by (simp add: get_all_registers_step_def rd Inl)
    with Cons.prems have "s' = s1" "ok = False"
      by (simp_all add: get_all_fold_failed)
    with e1 nv runs_plan_failed [OF e1(2) nv, of "concat (map read_plan rs)"] show ?thesis
      by auto
  next
    case (Inr v)
    then have av: "list_all (\<lambda>ok. ok) (transfers e1)"
      using e1(3) by (simp add: has_value_def)
    have "get_all_registers_step dev r ((regs, idx, True), s) = ((regs[idx := v], idx + 1, True), s1)"
      by (simp add: get_all_registers_step_def rd Inr)
    with Cons.prems have "fold (get_all_registers_step dev) rs ((regs[idx := v], idx + 1, True), s1)
        = ((regs', idx', ok), s')"
      by simp
    from Cons.IH [OF this] obtain e2 where
      e2: "spi_log s' = spi_log s1 @ e2" "runs_plan (concat (map read_plan rs)) (transfers e2)"
        "ok = list_all (\<lambda>ok. ok) (transfers e2)"
      by blast
    have "spi_log s' = spi_log s @ (e1 @ e2)"
      using e1(1) e2(1) by simp
    moreover have "runs_plan (concat (map read_plan (r # rs))) (transfers (e1 @ e2))"
      using runs_plan_all_ok [OF e1(2) av] e2(2) by (simp add: transfers_append)
    moreover have "ok = list_all (\<lambda>ok. ok) (transfers (e1 @ e2))"
      using e2(3) av by (simp add: transfers_append)
    ultimately show ?thesis by blast
  qed
qed

lemma register_tuple_read_plan:
  "concat (map read_plan register_tuple) = [1, 1, 1, 1, 1, 1, 1, 1]"
  by (simp add: register_tuple_def reg_defs read_plan_def del: One_nat_def)

lemma get_all_registers_follows:
  "run_follows [1, 1, 1, 1, 1, 1, 1, 1] s (get_all_registers dev s)"
proof -
  obtain regs' idx' ok s' where
    f: "fold (get_all_registers_step dev) register_tuple ((replicate tmc_register_count 0, 0, True), s)
          = ((regs', idx', ok), s')"
    by (metis prod.exhaust)
  from get_all_fold [OF f] obtain ext where
    e: "spi_log s' = spi_log s @ ext" "runs_plan (concat (map read_plan register_tuple)) (transfers ext)"
      "ok = list_all (\<lambda>ok. ok) (transfers ext)"
    by blast
  have g: "get_all_registers dev s = (if ok then Inr regs' else Inl SPI_TRANSFER_FAILED, s')"
    by (simp add: get_all_registers_def f)
  have "run_follows (concat (map read_plan register_tuple)) s
          (if ok then Inr regs' else Inl SPI_TRANSFER_FAILED, s')"
    by (rule run_followsI [OF e(1,2)]) (auto simp: e(3) [symmetric] has_value_def)
  then show ?thesis
    by (simp only: g register_tuple_read_plan)
qed

subsection \<open>Running a sequence on a transport that fails one transfer\<close>

lemma write_eval:
  "write dev r v s =
     (if fst (dev (spi_log s @ [Select]) (write_frame (address r) v)) then Inr ()
      else Inl SPI_TRANSFER_FAILED,
      \<lparr>spi_log = spi_log s @ [Select, Transfer (write_frame (address r) v)
                    (fst (dev (spi_log s @ [Select]) (write_frame (address r) v))), Deselect],
       m_register_cache = (m_register_cache s)[unat (address r) := v]\<rparr>)"
  by (simp add: write_def write_raw_def transfer_def Let_def split_beta)

lemma transfers_snoc_Select: "transfers (es @ [Select]) = transfers es"
  by (simp add: transfers_append)

lemma write_fail_nth:
  "has_value (fst (write (fail_nth n) r v s)) = (length (transfers (spi_log s)) \<noteq> n)"
  "transfers (spi_log (snd (write (fail_nth n) r v s)))
     = transfers (spi_log s) @ [length (transfers (spi_log s)) \<noteq> n]"
  by (simp_all add: write_eval fail_nth_def transfers_append has_value_def)

lemma write_field_fail_nth:
  "has_value (fst (write_field (fail_nth n) f v s)) = (length (transfers (spi_log s)) \<noteq> n)"
  "transfers (spi_log (snd (write_field (fail_nth n) f v s)))
     = transfers (spi_log s) @ [length (transfers (spi_log s)) \<noteq> n]"
  by (simp_all add: write_field_def Let_def write_fail_nth)

lemma eval_args_fail_nth:
  assumes "\<forall>a \<in> set as. \<forall>s.
      has_value (fst (a s)) = (length (transfers (spi_log s)) \<noteq> n)
      \<and> transfers (spi_log (snd (a s))) = transfers (spi_log s) @ [length (transfers (spi_log s)) \<noteq> n]"
  shows "transfers (spi_log (snd (eval_args as s)))
           = transfers (spi_log s)
             @ map (\<lambda>k. k \<noteq> n) [length (transfers (spi_log s)) ..< length (transfers (spi_log s)) + length as]
       \<and> is_all_ok (fst (eval_args as s))
           = (n \<notin> {length (transfers (spi_log s)) ..< length (transfers (spi_log s)) + length as})"
  using assms
proof (induction as arbitrary: s)
  case Nil
  then show ?case by (simp add: is_all_ok_def)
next
  case (Cons a as)
  let ?k = "length (transfers (spi_log s))"
  obtain r1 s1 where a: "a s = (r1, s1)"
    by (cases "a s")
  from Cons.prems a have h: "has_value r1 = (?k \<noteq> n)"
    and t: "transfers (spi_log s1) = transfers (spi_log s) @ [?k \<noteq> n]"
    by (metis fst_conv list.set_intros(1), metis snd_conv list.set_intros(1))
  then have k1: "length (transfers (spi_log s1)) = Suc ?k"
    by simp
  from Cons.prems have "\<forall>a \<in> set as. \<forall>s.
      has_value (fst (a s)) = (length (transfers (spi_log s)) \<noteq> n)
      \<and> transfers (spi_log (snd (a s))) = transfers (spi_log s) @ [length (transfers (spi_log s)) \<noteq> n]"
    by simp
  note ih = Cons.IH [OF this, of s1, unfolded k1]
  have up: "[?k ..< ?k + length (a # as)] = ?k # [Suc ?k ..< Suc ?k + length as]"
    by (simp add: upt_rec)
  have "transfers (spi_log (snd (eval_args (a # as) s)))
      = transfers (spi_log s) @ map (\<lambda>k. k \<noteq> n) [?k ..< ?k + length (a # as)]"
    unfolding up using ih t by (simp add: a split_beta)
  moreover have "is_all_ok (fst (eval_args (a # as) s)) = (n \<notin> {?k ..< ?k + length (a # as)})"
    using ih h by (auto simp: a split_beta is_all_ok_def)
  ultimately show ?case by blast
qed

lemma default_configuration_first_fails:
  "fst (apply_default_configuration (fail_nth 0) new_driver) = Inl SPI_TRANSFER_FAILED
   \<and> transfers (calls_during new_driver (snd (apply_default_configuration (fail_nth 0) new_driver)))
       = False # replicate 14 True"
proof -
  define dev where "dev = fail_nth 0"
  define as where "as =
     [write dev VSTOP 100, write dev V1 40000, write dev AMAX 10000,
      write dev DMAX 10000, write dev A1 2000, write dev D1 10000,
      write dev TWPOWER_DOWN 10,
      write_field dev i_hold_delay_t 6, write_field dev i_hold_t 4,
      write_field dev i_run_t 16,
      write_field dev toff_t 3, write_field dev hstrt_t 4, write_field dev hend_t 1,
      write_field dev tbl_t 2,
      write dev XTARGET 0]"
  have n: "transfers (spi_log new_driver) = []"
    by (simp add: new_driver_def)
  have len: "length as = 15"
    by (simp add: as_def)
  have "\<forall>a \<in> set as. \<forall>s.
      has_value (fst (a s)) = (length (transfers (spi_log s)) \<noteq> 0)
      \<and> transfers (spi_log (snd (a s))) = transfers (spi_log s) @ [length (transfers (spi_log s)) \<noteq> 0]"
    by (simp add: as_def dev_def write_fail_nth write_field_fail_nth)
  from eval_args_fail_nth [OF this, of new_driver]
  have t: "transfers (spi_log (snd (eval_args as new_driver))) = map (\<lambda>k. k \<noteq> 0) [0 ..< 15]"
    and ok: "\<not> is_all_ok (fst (eval_args as new_driver))"
    by (simp_all add: n len)
  have m: "map (\<lambda>k. k \<noteq> 0) [0 ..< 15] = False # replicate 14 True"
    by (simp add: upt_rec numeral_eq_Suc)
  have "apply_default_configuration dev new_driver
          = (Inl SPI_TRANSFER_FAILED, snd (eval_args as new_driver))"
    unfolding apply_default_configuration_def as_def [symmetric] Let_def
    using ok by (simp add: split_beta)
  then show ?thesis
    using t m by (simp add: calls_during_def new_driver_def dev_def)
qed

lemma advanced_acceleration_second_fails:
  "transfers (calls_during new_driver
      (snd (set_advanced_acceleration exact (fail_nth 1) default_converter 1000 2000 3000 0 new_driver)))
     = [True, False]"
  by (simp add: set_advanced_acceleration_def and_then_def write_eval calls_during_def Let_def
      fail_nth_def new_driver_def)

subsection \<open>C1: which writes a failed sequence still attempts\<close>

text \<open>
  C1, as claimed: in every multi-register sequence, also in the apply-configuration
  sequences, the first write that fails is the last one attempted.
  \<open>apply_default_configuration\<close> passes its first fifteen writes as arguments to
  \<open>is_all_ok\<close>, so all fifteen are evaluated before any result is looked at.  On a
  transport that fails the first transfer and accepts every later one, the sequence returns
  \<open>SPI_TRANSFER_FAILED\<close> after fifteen transfers, fourteen of them successful writes
  made after the failure; a short-circuiting sequence of its sixteen writes would have
  stopped after one.  (The outcome does not depend on the order in which the fifteen
  arguments are evaluated: \<open>group_follows\<close> holds for any list of single writes.)
\<close>

theorem default_configuration_not_short_circuit:
  "fst (apply_default_configuration (fail_nth 0) new_driver) = Inl SPI_TRANSFER_FAILED
   \<and> transfers (calls_during new_driver (snd (apply_default_configuration (fail_nth 0) new_driver)))
       = False # replicate 14 True
   \<and> \<not> runs_plan (replicate 16 1)
         (transfers (calls_during new_driver
            (snd (apply_default_configuration (fail_nth 0) new_driver))))"
proof -
  have "\<not> runs_plan (replicate 16 1) (False # replicate 14 True)"
    by (simp add: numeral_eq_Suc)
  with default_configuration_first_fails show ?thesis
    by simp
qed

text \<open>
  C1, amended.  The sequencer operations composed with \<open>and_then\<close>
  (\<open>set_advanced_acceleration\<close>, \<open>set_linear_acceleration\<close>, \<open>set_ihold\<close>, \<open>move_to\<close>,
  \<open>rotate_velocity\<close>) and the bulk register read are short-circuiting: the first transfer that
  fails is the last one attempted.  The apply-configuration sequences short-circuit between
  their steps only: the writes handed together to \<open>is_all_ok\<close> (the first fifteen writes
  of \<open>apply_default_configuration\<close>; in \<open>apply_settings\<close> the three \<open>IHOLD_IRUN\<close> field
  writes, the four \<open>CHOPCONF\<close> field writes and the final \<open>XTARGET\<close>/\<open>XACTUAL\<close> pair)
  are all attempted even when one of them fails, and no later step is started.  Every
  sequence returns a value exactly when all the transfers it attempted succeeded, and
  \<open>SPI_TRANSFER_FAILED\<close> otherwise.
\<close>

theorem sequences_follow_their_plans:
  "run_follows [1, 1, 1, 1] s (set_advanced_acceleration fp dev c a1 amax dmax d1 s)
   \<and> run_follows [1, 1, 1, 1] s (set_linear_acceleration fp dev c a d s)
   \<and> run_follows [1, 1] s (set_ihold fp dev c i s)
   \<and> run_follows [1, 1, 1] s (move_to fp dev c step rpm s)
   \<and> run_follows [1, 1] s (rotate_velocity fp dev c rpm s)
   \<and> run_follows [1, 1, 1, 1, 1, 1, 1, 1] s (get_all_registers dev s)
   \<and> run_follows [15, 1] s (apply_default_configuration dev s)
   \<and> run_follows [1, 1, 1, 1, 1, 1, 1, 1, 1, 3, 1, 4, 1, 2] s (apply_settings fp dev c st s)"
  by (intro conjI set_advanced_acceleration_follows set_linear_acceleration_follows
      set_ihold_follows move_to_follows rotate_follows get_all_registers_follows
      apply_default_configuration_follows apply_settings_follows)

theorem sequences_follow_their_plans_witness:
  "transfers (calls_during new_driver
      (snd (set_advanced_acceleration exact (fail_nth 1) default_converter 1000 2000 3000 0 new_driver)))
     = [True, False]
   \<and> runs_plan [1, 1, 1, 1] [True, False]
   \<and> \<not> has_value
         (fst (set_advanced_acceleration exact (fail_nth 1) default_converter 1000 2000 3000 0 new_driver))
   \<and> fst (set_advanced_acceleration exact (fail_nth 1) default_converter 1000 2000 3000 0 new_driver)
       = Inl SPI_TRANSFER_FAILED"
proof -
  let ?out = "set_advanced_acceleration exact (fail_nth 1) default_converter 1000 2000 3000 0 new_driver"
  note t = advanced_acceleration_second_fails
  from sequences_follow_their_plans
    [of new_driver exact "fail_nth 1" default_converter 1000 2000 3000 0]
  have "run_follows [1, 1, 1, 1] new_driver ?out"
    by blast
  then have p: "runs_plan [1, 1, 1, 1] [True, False]"
    and h: "has_value (fst ?out) = list_all (\<lambda>ok. ok) [True, False]"
    and e: "\<not> has_value (fst ?out) \<longrightarrow> fst ?out = Inl SPI_TRANSFER_FAILED"
    unfolding run_follows_def Let_def t by blast+
  from h have "\<not> has_value (fst ?out)"
    by simp
  with e p t show ?thesis
    by blast
qed

section \<open>Unit conversion\<close>

lemma trunc_mono: "x \<le> y \<Longrightarrow> trunc_toward_zero x \<le> trunc_toward_zero y"
proof -
  assume xy: "x \<le> y"
  consider "0 \<le> x" | "x < 0" "0 \<le> y" | "x < 0" "y < 0"
    by linarith
  then show ?thesis
  proof cases
    case 1
    with xy show ?thesis
      by (simp add: trunc_toward_zero_def floor_mono)
  next
    case 2
    then have "\<lceil>x\<rceil> \<le> 0" "0 \<le> \<lfloor>y\<rfloor>"
      by (simp_all add: ceiling_le_zero)
    then have "\<lceil>x\<rceil> \<le> \<lfloor>y\<rfloor>"
      by linarith
    with 2 show ?thesis
      by (simp add: trunc_toward_zero_def)
  next
    case 3
    with xy show ?thesis
      by (simp add: trunc_toward_zero_def ceiling_mono)
  qed
qed

lemma trunc_of_int [simp]: "trunc_toward_zero (of_int n) = n"
  by (simp add: trunc_toward_zero_def)

lemma clamp_mono: "lo \<le> hi \<Longrightarrow> x \<le> y \<Longrightarrow> clamp x lo hi \<le> clamp y lo hi"
  by (auto simp: clamp_def)

lemma clamp_range: "lo \<le> hi \<Longrightarrow> lo \<le> clamp x lo hi \<and> clamp x lo hi \<le> hi"
  by (auto simp: clamp_def)

lemma rounding_mono: "rounding rnd \<Longrightarrow> x \<le> y \<Longrightarrow> rnd x \<le> rnd y"
  by (simp add: rounding_def mono_def)

lemma rounding_int: "rounding rnd \<Longrightarrow> \<bar>n\<bar> \<le> 2 ^ 24 \<Longrightarrow> rnd (of_int n) = of_int n"
  by (simp add: rounding_def)

lemma rounding_consts:
  assumes "rounding rnd"
  shows "rnd 0 = 0" "rnd 1 = 1" "rnd 31 = 31" "rnd 32 = 32" "rnd 65535 = 65535" "rnd (- 1) = - 1"
  using rounding_int [OF assms, of 0] rounding_int [OF assms, of 1] rounding_int [OF assms, of 31]
    rounding_int [OF assms, of 32] rounding_int [OF assms, of 65535] rounding_int [OF assms, of "- 1"]
  by simp_all

lemma rounding_exact: "rounding (f32 exact)" "rounding (f64 exact)"
  by (simp_all add: rounding_def exact_def mono_def)

lemma accel_clamped_trunc:
  "1 \<le> trunc_toward_zero (clamp x 1 65535) \<and> trunc_toward_zero (clamp x 1 65535) \<le> 65535"
proof -
  have "(1::real) \<le> clamp x 1 65535" "clamp x 1 65535 \<le> (65535::real)"
    using clamp_range [of "1::real" 65535 x] by simp_all
  then have "trunc_toward_zero 1 \<le> trunc_toward_zero (clamp x 1 65535)" "trunc_toward_zero (clamp x 1 65535) \<le> trunc_toward_zero 65535"
    by (simp_all only: trunc_mono)
  moreover have "trunc_toward_zero 1 = 1" "trunc_toward_zero 65535 = 65535"
    using trunc_of_int [of 1] trunc_of_int [of 65535] by simp_all
  ultimately show ?thesis by simp
qed

lemma unat_accel_to_register:
  "unat (accel_to_register fp c a) = nat (trunc_toward_zero (clamp (accel_operand fp c a) 1 65535))"
proof -
  let ?t = "trunc_toward_zero (clamp (accel_operand fp c a) 1 65535)"
  have "0 \<le> ?t" "?t < 2 ^ 32"
    using accel_clamped_trunc [of "accel_operand fp c a"] by simp_all
  then have "unat (word_of_int ?t :: u32) = nat ?t"
    by (simp add: unat_eq_nat_uint uint_word_of_int take_bit_int_eq_self)
  then show ?thesis
    by (simp add: accel_to_register_def to_uint32_def Let_def)
qed

lemma accel_operand_mono:
  assumes "rounding (f32 fp)" and "0 < f32 fp (m_clock_frequency c * m_clock_frequency c)"
    and "a \<le> b"
  shows "accel_operand fp c a \<le> accel_operand fp c b"
proof -
  have "a * 2 ^ 41 \<le> b * 2 ^ 41"
    using assms(3) by simp
  then have "f32 fp (a * 2 ^ 41) \<le> f32 fp (b * 2 ^ 41)"
    by (rule rounding_mono [OF assms(1)])
  then have "f32 fp (a * 2 ^ 41) / f32 fp (m_clock_frequency c * m_clock_frequency c)
             \<le> f32 fp (b * 2 ^ 41) / f32 fp (m_clock_frequency c * m_clock_frequency c)"
    using assms(2) by (simp add: divide_right_mono)
  then show ?thesis
    unfolding accel_operand_def Let_def by (rule rounding_mono [OF assms(1)])
qed

lemma accel_to_register_mono:
  assumes "rounding (f32 fp)" and "0 < f32 fp (m_clock_frequency c * m_clock_frequency c)"
    and "a \<le> b"
  shows "accel_to_register fp c a \<le> accel_to_register fp c b"
proof -
  have "clamp (accel_operand fp c a) 1 65535 \<le> clamp (accel_operand fp c b) 1 65535"
    by (rule clamp_mono) (simp_all add: accel_operand_mono [OF assms])
  then have "trunc_toward_zero (clamp (accel_operand fp c a) 1 65535) \<le> trunc_toward_zero (clamp (accel_operand fp c b) 1 65535)"
    by (rule trunc_mono)
  then show ?thesis
    by (simp add: word_le_nat_alt unat_accel_to_register)
qed

lemma accel_to_register_zero:
  assumes "rounding (f32 fp)"
  shows "accel_to_register fp c 0 = 1"
proof -
  have "accel_operand fp c 0 = 0"
    by (simp add: accel_operand_def rounding_consts [OF assms])
  then show ?thesis
    by (simp add: accel_to_register_def clamp_def to_uint32_def trunc_of_int [of 1, simplified])
qed

lemma accel_to_register_max:
  assumes "rounding (f32 fp)" and "65535 \<le> f32 fp (a * 2 ^ 41) / f32 fp (m_clock_frequency c * m_clock_frequency c)"
  shows "accel_to_register fp c a = 65535"
proof -
  have "f32 fp 65535 \<le> accel_operand fp c a"
    unfolding accel_operand_def Let_def using assms(2) by (rule rounding_mono [OF assms(1)])
  then have "65535 \<le> accel_operand fp c a"
    by (simp add: rounding_consts [OF assms(1)])
  then have "clamp (accel_operand fp c a) 1 65535 = 65535"
    by (simp add: clamp_def)
  then show ?thesis
    by (simp add: accel_to_register_def to_uint32_def trunc_of_int [of 65535, simplified])
qed


lemma cs_operand_mono:
  assumes "rounding (f32 fp)" and "0 < i_max_rms fp c" and "x \<le> y"
  shows "cs_operand fp c x \<le> cs_operand fp c y"
proof -
  note m = rounding_mono [OF assms(1)]
  have "x / i_max_rms fp c \<le> y / i_max_rms fp c"
    using assms(2,3) by (simp add: divide_right_mono)
  then have "f32 fp (x / i_max_rms fp c) * 32 \<le> f32 fp (y / i_max_rms fp c) * 32"
    using m by simp
  then have "f32 fp (f32 fp (x / i_max_rms fp c) * 32) - 1 \<le> f32 fp (f32 fp (y / i_max_rms fp c) * 32) - 1"
    using m by simp
  then show ?thesis
    unfolding cs_operand_def Let_def by (rule m)
qed

lemma cs_operand_nonpositive:
  assumes "rounding (f32 fp)" and "0 < i_max_rms fp c"
  shows "cs_operand fp c 0 = - 1"
  by (simp add: cs_operand_def rounding_consts [OF assms(1)])

lemma cs_operand_full_scale:
  assumes "rounding (f32 fp)" and "0 < i_max_rms fp c"
  shows "cs_operand fp c (i_max_rms fp c) = 31"
  using assms(2) by (simp add: cs_operand_def rounding_consts [OF assms(1)])

lemma uint_current_to_cs:
  "uint (current_to_cs fp c x) = clamp (trunc_toward_zero (cs_operand fp c x)) 0 31"
proof -
  let ?v = "clamp (trunc_toward_zero (cs_operand fp c x)) 0 (31::int)"
  have "0 \<le> ?v" "?v \<le> 31"
    using clamp_range [of "0::int" 31] by simp_all
  then have "uint (word_of_int ?v :: u8) = ?v"
    by (simp add: uint_word_of_int take_bit_int_eq_self)
  then show ?thesis
    by (simp add: current_to_cs_def to_int32_def Let_def)
qed

lemma current_to_cs_mono:
  assumes "rounding (f32 fp)" and "0 < i_max_rms fp c" and "x \<le> y"
  shows "current_to_cs fp c x \<le> current_to_cs fp c y"
proof -
  have "trunc_toward_zero (cs_operand fp c x) \<le> trunc_toward_zero (cs_operand fp c y)"
    by (rule trunc_mono [OF cs_operand_mono [OF assms]])
  then have "clamp (trunc_toward_zero (cs_operand fp c x)) 0 (31::int)
      \<le> clamp (trunc_toward_zero (cs_operand fp c y)) 0 31"
    by (simp add: clamp_mono)
  then show ?thesis
    by (simp add: word_le_def uint_current_to_cs)
qed

lemma current_to_cs_low:
  assumes "rounding (f32 fp)" and "0 < i_max_rms fp c" and "x \<le> 0"
  shows "current_to_cs fp c x = 0"
proof -
  have "cs_operand fp c x \<le> - 1"
    using cs_operand_mono [OF assms] cs_operand_nonpositive [OF assms(1,2)] by simp
  then have "trunc_toward_zero (cs_operand fp c x) \<le> trunc_toward_zero (- 1)"
    by (rule trunc_mono)
  then have "trunc_toward_zero (cs_operand fp c x) \<le> - 1"
    using trunc_of_int [of "- 1"] by simp
  then have "uint (current_to_cs fp c x) = 0"
    by (simp add: uint_current_to_cs clamp_def)
  then show ?thesis
    by (simp add: uint_0_iff)
qed

lemma current_to_cs_high:
  assumes "rounding (f32 fp)" and "0 < i_max_rms fp c" and "i_max_rms fp c \<le> x"
  shows "current_to_cs fp c x = 31"
proof -
  have "31 \<le> cs_operand fp c x"
    using cs_operand_mono [OF assms] cs_operand_full_scale [OF assms(1,2)] by simp
  then have "trunc_toward_zero 31 \<le> trunc_toward_zero (cs_operand fp c x)"
    by (rule trunc_mono)
  then have "31 \<le> trunc_toward_zero (cs_operand fp c x)"
    using trunc_of_int [of 31] by simp
  then have "uint (current_to_cs fp c x) = 31"
    by (simp add: uint_current_to_cs clamp_def)
  then show ?thesis
    by (metis uint_numeral word_uint_eq_iff uint_current_to_cs word_of_int_uint word_of_int_numeral)
qed

lemma i_max_rms_exact: "i_max_rms exact c = rms_full_scale (m_r_sense c)"
  by (simp add: i_max_rms_def rms_full_scale_def exact_def)

lemma cs_operand_exact:
  "cs_operand exact c x = x / rms_full_scale (m_r_sense c) * 32 - 1"
  by (simp add: cs_operand_def i_max_rms_exact) (simp add: exact_def)

lemma sqrt2_bounds: "7 / 5 < sqrt 2" "sqrt 2 < 3 / 2"
proof -
  have "(7 / 5 :: real)\<^sup>2 < 2"
    by (simp add: power2_eq_square)
  then show "7 / 5 < sqrt 2"
    by (rule real_less_rsqrt)
  have "(2 :: real) < (3 / 2)\<^sup>2"
    by (simp add: power2_eq_square)
  then show "sqrt 2 < 3 / 2"
    by (intro real_less_lsqrt) simp_all
qed

lemma accel_operand_exact:
  "accel_operand exact c a = a * 2 ^ 41 / (m_clock_frequency c * m_clock_frequency c)"
  by (simp add: accel_operand_def exact_def)

lemma trunc_nonneg: "0 \<le> x \<Longrightarrow> trunc_toward_zero x = \<lfloor>x\<rfloor>"
  by (simp add: trunc_toward_zero_def)

lemma D1_frame: "write_frame (address D1) 1 = [0xAA, 0, 0, 0, 1]"
  by (simp add: write_frame_bytes D1_def)

lemma set_advanced_acceleration_d1:
  assumes z: "accel_to_register fp c 0 = 1"
  shows "(\<forall>tx ok. Transfer tx ok \<in> set (calls_during s (snd (set_advanced_acceleration fp dev c a1 amax dmax 0 s)))
            \<and> hd tx = 0xAA \<longrightarrow> tx = [0xAA, 0, 0, 0, 1])"
proof -
  have hd_frame: "hd (write_frame a v) = a OR 0x80" for a v
    by (simp add: write_frame_def)
  have c: "clamp (1 :: u32) 1 65535 = 1"
    by (simp add: clamp_def)
  show ?thesis
    by (auto simp: set_advanced_acceleration_def and_then_def write_eval calls_during_def z c
        hd_frame D1_frame [symmetric] A1_def AMAX_def DMAX_def D1_def Let_def split: if_splits)
qed

lemma set_advanced_acceleration_complete:
  assumes z: "accel_to_register fp c 0 = 1"
    and v: "has_value (fst (set_advanced_acceleration fp dev c a1 amax dmax 0 s))"
  shows "last (frames (calls_during s (snd (set_advanced_acceleration fp dev c a1 amax dmax 0 s))))
           = [0xAA, 0, 0, 0, 1]"
proof -
  have c: "clamp (1 :: u32) 1 65535 = 1"
    by (simp add: clamp_def)
  show ?thesis
    using v
    by (auto simp: set_advanced_acceleration_def and_then_def write_eval calls_during_def z c
        has_value_def D1_frame Let_def split: if_splits)
qed

lemma default_converter_simps:
  "m_clock_frequency default_converter = 12000000" "m_r_sense default_converter = 75 / 1000"
  "m_clock_frequency converter_50mOhm = 12000000" "m_r_sense converter_50mOhm = 50 / 1000"
  by (simp_all add: default_converter_def converter_50mOhm_def make_Converter_def)

lemma cs_example_code: "current_to_cs exact default_converter (15 / 100) = 0"
proof -
  define x where "x = 72 / 65 * sqrt 2 - 1"
  have op: "cs_operand exact default_converter (15 / 100) = x"
    by (simp add: x_def cs_operand_exact rms_full_scale_def default_converter_simps)
  have "0 \<le> x" "x < 1"
    using sqrt2_bounds by (simp_all add: x_def)
  then have "trunc_toward_zero x = 0"
    by (simp add: trunc_nonneg floor_eq_iff)
  then show ?thesis
    unfolding current_to_cs_def to_int32_def Let_def op by (simp add: clamp_def)
qed

lemma cs_example_spec: "current_to_cs_spec (75 / 1000) (15 / 100) = 1"
proof -
  define x where "x = 72 / 65 * sqrt 2"
  have e: "15 / 100 / rms_full_scale (75 / 1000) * 32 = x"
    by (simp add: x_def rms_full_scale_def)
  have "2 \<le> x + 1 / 2" "x + 1 / 2 < 3"
    using sqrt2_bounds by (simp_all add: x_def)
  then have "round x = 2"
    unfolding round_def by (simp add: floor_eq_iff)
  then show ?thesis
    unfolding current_to_cs_spec_def e by (simp add: clamp_def)
qed

lemma accel_examples:
  "accel_to_register exact default_converter 1000 = 15"
  "accel_to_register exact default_converter 10000 = 152"
  "accel_to_register exact default_converter 2000 = 30"
  "accel_to_register exact default_converter 3000 = 45"
  by (simp_all add: accel_to_register_def accel_operand_exact default_converter_simps clamp_def
      to_uint32_def trunc_toward_zero_def)

lemma advanced_acceleration_example:
  "frames (calls_during new_driver
      (snd (set_advanced_acceleration exact ok_device default_converter 1000 2000 3000 0 new_driver)))
     = [[0xA4, 0, 0, 0, 15], [0xA6, 0, 0, 0, 30], [0xA8, 0, 0, 0, 45], [0xAA, 0, 0, 0, 1]]"
  by (simp add: set_advanced_acceleration_def and_then_def write_eval calls_during_def Let_def
      ok_device_def new_driver_def accel_examples write_frame_bytes clamp_def
      A1_def AMAX_def DMAX_def D1_def accel_to_register_zero [OF rounding_exact(1)])

text \<open>
  The example of C7 under rounding: for every \<open>float\<close> rounding whose relative error is at
  most 1/1000 (that of IEEE single precision is below \<open>2^-23\<close>), at the \<open>float\<close> inputs
  nearest to 0.15 A and 75 mOhm.
\<close>

lemma rel_bounds:
  fixes rnd :: "real \<Rightarrow> real"
  assumes rel: "\<And>x. \<bar>rnd x - x\<bar> \<le> \<bar>x\<bar> / 1000"
    and "0 \<le> a" and "a \<le> x" and "x \<le> b"
  shows "a * (999 / 1000) \<le> rnd x" and "rnd x \<le> b * (1001 / 1000)"
proof -
  have x: "0 \<le> x"
    using assms(2,3) by simp
  from rel [of x] x have "\<bar>rnd x - x\<bar> \<le> x / 1000"
    by simp
  then have "x - x / 1000 \<le> rnd x" "rnd x \<le> x + x / 1000"
    by linarith+
  with assms(3,4) show "a * (999 / 1000) \<le> rnd x" and "rnd x \<le> b * (1001 / 1000)"
    by linarith+
qed

lemma div_bounds:
  fixes x y :: real
  assumes "0 \<le> a" "a \<le> x" "x \<le> b" "0 < c" "c \<le> y" "y \<le> d"
  shows "a / d \<le> x / y" and "x / y \<le> b / c"
  using assms by (simp_all add: frac_le)

lemma cs_example_any_rounding:
  assumes rel: "\<And>x. \<bar>f32 fp x - x\<bar> \<le> \<bar>x\<bar> / 1000"
  shows "current_to_cs fp (make_Converter fp 12000000 200 (f32 fp (75 / 1000))) (f32 fp (15 / 100)) = 0"
proof -
  define rnd where "rnd = f32 fp"
  note R = rel_bounds [of rnd, OF rel [folded rnd_def]]
  define v_fs where "v_fs = rnd (325 / 1000)"
  define r where "r = rnd (75 / 1000)"
  define q1 where "q1 = rnd (v_fs / r)"
  define s2 where "s2 = rnd (sqrt 2)"
  define imax where "imax = rnd (q1 / s2)"
  define cur where "cur = rnd (15 / 100)"
  define ratio where "ratio = rnd (cur / imax)"
  define m where "m = rnd (ratio * 32)"
  define op where "op = rnd (m - 1)"
  have v_fs: "324 / 1000 \<le> v_fs" "v_fs \<le> 326 / 1000"
    using R [of "325 / 1000" "325 / 1000" "325 / 1000"] by (simp_all add: v_fs_def)
  have r: "749 / 10000 \<le> r" "r \<le> 751 / 10000"
    using R [of "75 / 1000" "75 / 1000" "75 / 1000"] by (simp_all add: r_def)
  have u1: "431 / 100 \<le> v_fs / r" "v_fs / r \<le> 436 / 100"
    using div_bounds [of "324 / 1000" v_fs "326 / 1000" "749 / 10000" r "751 / 10000"] v_fs r
    by simp_all
  have q1: "43 / 10 \<le> q1" "q1 \<le> 437 / 100"
    using R [of "431 / 100" "v_fs / r" "436 / 100"] u1 by (simp_all add: q1_def)
  have sq: "7 / 5 \<le> sqrt 2" "sqrt 2 \<le> 3 / 2"
    using sqrt2_bounds by simp_all
  have s2: "139 / 100 \<le> s2" "s2 \<le> 151 / 100"
    using R [of "7 / 5" "sqrt 2" "3 / 2"] sq by (simp_all add: s2_def)
  have u2: "284 / 100 \<le> q1 / s2" "q1 / s2 \<le> 315 / 100"
    using div_bounds [of "43 / 10" q1 "437 / 100" "139 / 100" s2 "151 / 100"] q1 s2
    by simp_all
  have imax: "283 / 100 \<le> imax" "imax \<le> 316 / 100"
    using R [of "284 / 100" "q1 / s2" "315 / 100"] u2 by (simp_all add: imax_def)
  have cur: "1498 / 10000 \<le> cur" "cur \<le> 1502 / 10000"
    using R [of "15 / 100" "15 / 100" "15 / 100"] by (simp_all add: cur_def)
  have u3: "474 / 10000 \<le> cur / imax" "cur / imax \<le> 531 / 10000"
    using div_bounds [of "1498 / 10000" cur "1502 / 10000" "283 / 100" imax "316 / 100"] cur imax
    by simp_all
  have ratio: "473 / 10000 \<le> ratio" "ratio \<le> 532 / 10000"
    using R [of "474 / 10000" "cur / imax" "531 / 10000"] u3 by (simp_all add: ratio_def)
  have m: "151 / 100 \<le> m" "m \<le> 171 / 100"
    using R [of "473 / 10000 * 32" "ratio * 32" "532 / 10000 * 32"] ratio by (simp_all add: m_def)
  have op: "1 / 2 \<le> op" "op \<le> 72 / 100"
    using R [of "51 / 100" "m - 1" "71 / 100"] m by (simp_all add: op_def)
  have "cs_operand fp (make_Converter fp 12000000 200 (f32 fp (75 / 1000))) (f32 fp (15 / 100)) = op"
    by (simp add: cs_operand_def i_max_rms_def make_Converter_def Let_def op_def m_def ratio_def
        cur_def imax_def s2_def q1_def r_def v_fs_def rnd_def)
  moreover have "trunc_toward_zero op = 0"
    using op by (simp add: trunc_nonneg floor_eq_iff)
  ultimately show ?thesis
    by (simp add: current_to_cs_def to_int32_def Let_def clamp_def)
qed


lemma cs_spec_example_any_rounding:
  assumes rel: "\<And>x. \<bar>f32 fp x - x\<bar> \<le> \<bar>x\<bar> / 1000"
  shows "current_to_cs_spec (f32 fp (75 / 1000)) (f32 fp (15 / 100)) = 1"
proof -
  define rnd where "rnd = f32 fp"
  note R = rel_bounds [of rnd, OF rel [folded rnd_def]]
  define r where "r = rnd (75 / 1000)"
  define cur where "cur = rnd (15 / 100)"
  define x where "x = cur / rms_full_scale r * 32"
  have r: "749 / 10000 \<le> r" "r \<le> 751 / 10000"
    using R [of "75 / 1000" "75 / 1000" "75 / 1000"] by (simp_all add: r_def)
  have cur: "1498 / 10000 \<le> cur" "cur \<le> 1502 / 10000"
    using R [of "15 / 100" "15 / 100" "15 / 100"] by (simp_all add: cur_def)
  have sq: "7 / 5 \<le> sqrt 2" "sqrt 2 \<le> 3 / 2"
    using sqrt2_bounds by simp_all
  have f: "432 / 100 \<le> 325 / 1000 / r" "325 / 1000 / r \<le> 434 / 100"
    using div_bounds [of "325 / 1000" "325 / 1000" "325 / 1000" "749 / 10000" r "751 / 10000"] r
    by simp_all
  have g: "288 / 100 \<le> rms_full_scale r" "rms_full_scale r \<le> 311 / 100"
    using div_bounds [of "432 / 100" "325 / 1000 / r" "434 / 100" "7 / 5" "sqrt 2" "3 / 2"] f sq
    by (simp_all add: rms_full_scale_def)
  have h: "481 / 10000 \<le> cur / rms_full_scale r" "cur / rms_full_scale r \<le> 522 / 10000"
    using div_bounds [of "1498 / 10000" cur "1502 / 10000" "288 / 100" "rms_full_scale r" "311 / 100"]
      cur g
    by simp_all
  then have "2 \<le> x + 1 / 2" "x + 1 / 2 < 3"
    by (simp_all add: x_def)
  then have "round x = 2"
    unfolding round_def by (simp add: floor_eq_iff)
  then show ?thesis
    unfolding current_to_cs_spec_def r_def [symmetric] cur_def [symmetric] rnd_def [symmetric]
      x_def [symmetric]
    by (simp add: clamp_def)
qed

subsection \<open>C7: \<open>current_to_cs\<close>\<close>

text \<open>
  C7, as claimed: the code is \<open>clamp(round(current / rms_full_scale * 32) - 1, 0, 31)\<close>.
  With the default 75 mOhm sense resistor and a current of 0.15 A the scaled ratio is about
  1.57: the formula rounds it to 2 and gives 1, while the code subtracts 1 first and converts
  0.57 to the integer 0.  The theorem evaluates both in exact arithmetic; by
  \<open>cs_example_any_rounding\<close> and \<open>cs_spec_example_any_rounding\<close> the two results are the
  same under every rounding with a relative error of at most 1/1000.
\<close>

theorem current_to_cs_not_rounded:
  "current_to_cs exact default_converter (15 / 100) = 0
   \<and> current_to_cs_spec (m_r_sense default_converter) (15 / 100) = 1"
  using cs_example_code cs_example_spec by (simp add: default_converter_simps)

text \<open>
  C7, amended.  \<open>current_to_cs\<close> maps a current to the 5-bit code
  \<open>clamp(trunc(current / rms_full_scale * 32 - 1), 0, 31)\<close>, where \<open>trunc\<close> discards the
  fractional part (a conversion to \<open>int32_t\<close>, not a rounding to nearest) and
  \<open>rms_full_scale = (0.325 / sense_resistor) / sqrt 2\<close>.  For a positive full-scale current
  and currents whose scaled value fits an \<open>int32_t\<close>: a negative or zero current yields 0,
  a current at or above full scale yields 31, and the code is monotonic non-decreasing in
  the current.
\<close>

theorem current_to_cs_truncated:
  assumes "rounding (f32 fp)" and "0 < i_max_rms fp c"
    and "fits_int32 (cs_operand fp c x)" and "fits_int32 (cs_operand fp c y)"
  shows "uint (current_to_cs fp c x) = clamp (trunc_toward_zero (cs_operand fp c x)) 0 31
       \<and> cs_operand exact c x = x / rms_full_scale (m_r_sense c) * 32 - 1
       \<and> current_to_cs fp c x \<le> 31
       \<and> (x \<le> 0 \<longrightarrow> current_to_cs fp c x = 0)
       \<and> (i_max_rms fp c \<le> x \<longrightarrow> current_to_cs fp c x = 31)
       \<and> (x \<le> y \<longrightarrow> current_to_cs fp c x \<le> current_to_cs fp c y)"
proof -
  have "uint (current_to_cs fp c x) \<le> 31"
    unfolding uint_current_to_cs using clamp_range [of "0::int" 31] by simp
  then have "current_to_cs fp c x \<le> 31"
    by (simp add: word_le_def)
  then show ?thesis
    using assms(1,2)
    by (simp add: uint_current_to_cs cs_operand_exact current_to_cs_low current_to_cs_high
        current_to_cs_mono)
qed

theorem current_to_cs_truncated_witness:
  "rounding (f32 exact) \<and> 0 < i_max_rms exact converter_50mOhm
   \<and> fits_int32 (cs_operand exact converter_50mOhm 0)
   \<and> fits_int32 (cs_operand exact converter_50mOhm 10)
   \<and> current_to_cs exact converter_50mOhm 0 = 0
   \<and> i_max_rms exact converter_50mOhm \<le> 10
   \<and> current_to_cs exact converter_50mOhm 10 = 31
   \<and> current_to_cs exact converter_50mOhm 0 \<le> current_to_cs exact converter_50mOhm 10"
proof -
  define op where "op = cs_operand exact converter_50mOhm 10"
  have i: "i_max_rms exact converter_50mOhm = 13 / 2 / sqrt 2"
    by (simp add: i_max_rms_exact rms_full_scale_def default_converter_simps)
  have pos: "0 < i_max_rms exact converter_50mOhm"
    by (simp add: i)
  have "13 / 2 \<le> 10 * sqrt 2"
    using sqrt2_bounds by simp
  then have full: "i_max_rms exact converter_50mOhm \<le> 10"
    by (simp add: i pos_divide_le_eq)
  have f0: "fits_int32 (cs_operand exact converter_50mOhm 0)"
    using trunc_of_int [of "- 1"]
    by (simp add: cs_operand_nonpositive [OF rounding_exact(1) pos] fits_int32_def)
  have "op = 640 / 13 * sqrt 2 - 1"
    by (simp add: op_def cs_operand_exact rms_full_scale_def default_converter_simps)
  then have "0 \<le> op" "op \<le> 100"
    using sqrt2_bounds by simp_all
  then have "trunc_toward_zero 0 \<le> trunc_toward_zero op" "trunc_toward_zero op \<le> trunc_toward_zero 100"
    by (simp_all only: trunc_mono)
  then have "0 \<le> trunc_toward_zero op" "trunc_toward_zero op \<le> 100"
    using trunc_of_int [of 0] trunc_of_int [of 100] by simp_all
  then have f10: "fits_int32 (cs_operand exact converter_50mOhm 10)"
    by (simp add: fits_int32_def op_def)
  from current_to_cs_truncated [OF rounding_exact(1) pos f0 f10]
  have "current_to_cs exact converter_50mOhm 0 = 0"
    and "current_to_cs exact converter_50mOhm 0 \<le> current_to_cs exact converter_50mOhm 10"
    by simp_all
  moreover from current_to_cs_truncated [OF rounding_exact(1) pos f10 f10] full
  have "current_to_cs exact converter_50mOhm 10 = 31"
    by blast
  ultimately show ?thesis
    using rounding_exact(1) pos f0 f10 full by simp
qed

subsection \<open>C8: \<open>accel_to_register\<close>\<close>

text \<open>
  C8.  \<open>accel_to_register\<close> returns the integer part of
  \<open>clamp(accel * 2^41 / clock_hz^2, 1, 65535)\<close> (the quotient computed in \<open>float\<close>; in
  exact arithmetic it is that quotient), and the clamped value always fits the \<open>uint32_t\<close>
  it is converted to.  For a clock whose square does not round to zero:
  the result lies in 1..65535, is monotonic non-decreasing in the acceleration, is 1 for the
  acceleration 0, and is 65535 once the quotient reaches 65535.  Hence
  \<open>set_advanced_acceleration\<close> with a stop deceleration of 0 transmits to \<open>D1\<close> (frame
  address \<open>0xAA\<close>) only the value 1, and when the whole sequence succeeds its last frame is
  that write.
\<close>

theorem accel_to_register_clamped:
  assumes "rounding (f32 fp)"
    and "0 < f32 fp (m_clock_frequency c * m_clock_frequency c)"
  shows "uint (accel_to_register fp c a) = \<lfloor>clamp (accel_operand fp c a) 1 65535\<rfloor>
       \<and> fits_uint32 (clamp (accel_operand fp c a) 1 65535)
       \<and> accel_operand exact c a = a * 2 ^ 41 / (m_clock_frequency c * m_clock_frequency c)
       \<and> 1 \<le> accel_to_register fp c a \<and> accel_to_register fp c a \<le> 65535
       \<and> (a \<le> b \<longrightarrow> accel_to_register fp c a \<le> accel_to_register fp c b)
       \<and> accel_to_register fp c 0 = 1
       \<and> (65535 \<le> f32 fp (a * 2 ^ 41) / f32 fp (m_clock_frequency c * m_clock_frequency c)
            \<longrightarrow> accel_to_register fp c a = 65535)
       \<and> (\<forall>tx ok.
             Transfer tx ok \<in> set (calls_during s
                 (snd (set_advanced_acceleration fp dev c a1 amax dmax 0 s)))
             \<and> hd tx = 0xAA \<longrightarrow> tx = [0xAA, 0, 0, 0, 1])
       \<and> (has_value (fst (set_advanced_acceleration fp dev c a1 amax dmax 0 s)) \<longrightarrow>
             last (frames (calls_during s (snd (set_advanced_acceleration fp dev c a1 amax dmax 0 s))))
               = [0xAA, 0, 0, 0, 1])"
proof -
  let ?t = "trunc_toward_zero (clamp (accel_operand fp c a) 1 65535)"
  note r = accel_clamped_trunc [of "accel_operand fp c a"]
  have u: "unat (accel_to_register fp c a) = nat ?t"
    by (rule unat_accel_to_register)
  have "(1 :: real) \<le> clamp (accel_operand fp c a) 1 65535"
    using clamp_range [of "1 :: real" 65535] by simp
  then have fl: "?t = \<lfloor>clamp (accel_operand fp c a) 1 65535\<rfloor>"
    by (simp add: trunc_nonneg)
  have "0 \<le> ?t" "?t < 2 ^ 32"
    using r by simp_all
  then have "uint (word_of_int ?t :: u32) = ?t"
    by (simp add: uint_word_of_int take_bit_int_eq_self)
  then have "uint (accel_to_register fp c a) = ?t"
    by (simp add: accel_to_register_def to_uint32_def Let_def)
  then have one: "uint (accel_to_register fp c a) = \<lfloor>clamp (accel_operand fp c a) 1 65535\<rfloor>"
    by (simp only: fl)
  have "1 \<le> nat ?t" "nat ?t \<le> 65535"
    using r by linarith+
  then have lo: "1 \<le> accel_to_register fp c a" and hi: "accel_to_register fp c a \<le> 65535"
    by (simp_all add: word_le_nat_alt u)
  have fits: "fits_uint32 (clamp (accel_operand fp c a) 1 65535)"
    using r by (simp add: fits_uint32_def)
  note z = accel_to_register_zero [OF assms(1), of c]
  have mono: "a \<le> b \<longrightarrow> accel_to_register fp c a \<le> accel_to_register fp c b"
    using accel_to_register_mono [OF assms] by blast
  have top: "65535 \<le> f32 fp (a * 2 ^ 41) / f32 fp (m_clock_frequency c * m_clock_frequency c)
      \<longrightarrow> accel_to_register fp c a = 65535"
    using accel_to_register_max [OF assms(1)] by blast
  have last: "has_value (fst (set_advanced_acceleration fp dev c a1 amax dmax 0 s)) \<longrightarrow>
      last (frames (calls_during s (snd (set_advanced_acceleration fp dev c a1 amax dmax 0 s))))
        = [0xAA, 0, 0, 0, 1]"
    using set_advanced_acceleration_complete [OF z] by blast
  show ?thesis
    by (intro conjI one fits accel_operand_exact lo hi mono z top last
        set_advanced_acceleration_d1 [OF z])
qed

theorem accel_to_register_clamped_witness:
  "rounding (f32 exact)
   \<and> 0 < f32 exact (m_clock_frequency default_converter * m_clock_frequency default_converter)
   \<and> accel_to_register exact default_converter 0 = 1
   \<and> accel_to_register exact default_converter 1000 = 15
   \<and> accel_to_register exact default_converter 10000 = 152
   \<and> accel_to_register exact default_converter 1000 \<le> accel_to_register exact default_converter 10000
   \<and> accel_to_register exact default_converter 10000000000 = 65535
   \<and> has_value (fst (set_advanced_acceleration exact ok_device default_converter 1000 2000 3000 0
         new_driver))
   \<and> last (frames (calls_during new_driver
         (snd (set_advanced_acceleration exact ok_device default_converter 1000 2000 3000 0 new_driver))))
       = [0xAA, 0, 0, 0, 1]"
proof -
  have clk: "0 < f32 exact (m_clock_frequency default_converter * m_clock_frequency default_converter)"
    by (simp add: default_converter_simps exact_def)
  have big: "65535 \<le> f32 exact (10000000000 * 2 ^ 41)
      / f32 exact (m_clock_frequency default_converter * m_clock_frequency default_converter)"
    by (simp add: default_converter_simps exact_def)
  have hv: "has_value (fst (set_advanced_acceleration exact ok_device default_converter 1000 2000 3000 0
         new_driver))"
    by (simp add: set_advanced_acceleration_def and_then_def write_eval Let_def ok_device_def
        has_value_def)
  note t = accel_to_register_clamped [OF rounding_exact(1) clk]
  from t [of 1000 10000] have a: "accel_to_register exact default_converter 0 = 1"
    and m: "accel_to_register exact default_converter 1000 \<le> accel_to_register exact default_converter 10000"
    by simp_all
  from t [of 10000000000] big
  have b: "accel_to_register exact default_converter 10000000000 = 65535"
    by simp
  from t [of 0 0 new_driver ok_device 1000 2000 3000] hv
  have d: "last (frames (calls_during new_driver
         (snd (set_advanced_acceleration exact ok_device default_converter 1000 2000 3000 0 new_driver))))
       = [0xAA, 0, 0, 0, 1]"
    by blast
  show ?thesis
    using rounding_exact(1) clk a m b hv d accel_examples(1,2) by simp
qed

end
